theory Spec2Isabelle
  imports Complex_Main "HOL-Library.Product_Lexorder" "HOL-Library.Multiset"
begin

section \<open>Numbers\<close>

text \<open>
  The program computes on numpy float64 values. A value is modelled as an exact real
  number or one of the three special values that numpy's arithmetic produces instead of
  raising (division by zero, square root of a negative number, and so on). Rounding,
  overflow and the sign of zero are not modelled: finite arithmetic is exact.
  Values supplied by the caller (tables, true values, sample counts) are finite and are
  therefore plain reals.
\<close>

datatype fl = Fin real | PInf | NInf | NaN

fun fadd :: "fl \<Rightarrow> fl \<Rightarrow> fl" where
  "fadd NaN _ = NaN"
| "fadd _ NaN = NaN"
| "fadd (Fin a) (Fin b) = Fin (a + b)"
| "fadd PInf NInf = NaN"
| "fadd NInf PInf = NaN"
| "fadd PInf _ = PInf"
| "fadd _ PInf = PInf"
| "fadd NInf _ = NInf"
| "fadd _ NInf = NInf"

fun fmul :: "fl \<Rightarrow> fl \<Rightarrow> fl" where
  "fmul NaN _ = NaN"
| "fmul _ NaN = NaN"
| "fmul (Fin a) (Fin b) = Fin (a * b)"
| "fmul (Fin a) PInf = (if a = 0 then NaN else if 0 < a then PInf else NInf)"
| "fmul (Fin a) NInf = (if a = 0 then NaN else if 0 < a then NInf else PInf)"
| "fmul PInf (Fin b) = (if b = 0 then NaN else if 0 < b then PInf else NInf)"
| "fmul NInf (Fin b) = (if b = 0 then NaN else if 0 < b then NInf else PInf)"
| "fmul PInf PInf = PInf"
| "fmul PInf NInf = NInf"
| "fmul NInf PInf = NInf"
| "fmul NInf NInf = PInf"

fun fdiv :: "fl \<Rightarrow> fl \<Rightarrow> fl" where
  "fdiv NaN _ = NaN"
| "fdiv _ NaN = NaN"
| "fdiv (Fin a) (Fin b) =
     (if b = 0 then (if a = 0 then NaN else if 0 < a then PInf else NInf)
      else Fin (a / b))"
| "fdiv (Fin a) PInf = Fin 0"
| "fdiv (Fin a) NInf = Fin 0"
| "fdiv PInf (Fin b) = (if 0 \<le> b then PInf else NInf)"
| "fdiv NInf (Fin b) = (if 0 \<le> b then NInf else PInf)"
| "fdiv PInf PInf = NaN"
| "fdiv PInf NInf = NaN"
| "fdiv NInf PInf = NaN"
| "fdiv NInf NInf = NaN"

text \<open>\<^verbatim>\<open>np.sqrt(x)\<close>: not a number below zero.\<close>

fun fsqrt :: "fl \<Rightarrow> fl" where
  "fsqrt (Fin a) = (if a < 0 then NaN else Fin (sqrt a))"
| "fsqrt PInf = PInf"
| "fsqrt NInf = NaN"
| "fsqrt NaN = NaN"

text \<open>\<^verbatim>\<open>x ** 2\<close> on an array or a series.\<close>

fun fsquare :: "fl \<Rightarrow> fl" where
  "fsquare (Fin a) = Fin (a * a)"
| "fsquare PInf = PInf"
| "fsquare NInf = PInf"
| "fsquare NaN = NaN"

text \<open>\<^verbatim>\<open>x ** 0.5\<close>: C's \<^verbatim>\<open>pow\<close>, which sends minus infinity to infinity.\<close>

fun fpow_half :: "fl \<Rightarrow> fl" where
  "fpow_half (Fin a) = (if a < 0 then NaN else Fin (sqrt a))"
| "fpow_half PInf = PInf"
| "fpow_half NInf = PInf"
| "fpow_half NaN = NaN"

section \<open>Errors\<close>

text \<open>
  Every \<^verbatim>\<open>assert\<close> of the source raises the same exception class; the model records
  which assertion failed.
\<close>

datatype assert_site =
    TrueValuesShape      \<comment> \<open>summary_df: one true value for every column\<close>
  | TrueValuesMissing    \<comment> \<open>summary_df: include_true_values without true values\<close>
  | RmseTrueValues       \<comment> \<open>summary_df: include_rmse without true values\<close>
  | RmseShape            \<comment> \<open>rmse_and_unc: shape of the true values\<close>
  | AxisRange            \<comment> \<open>summary_df_from_array: axis is 0 or 1\<close>
  | ListShape            \<comment> \<open>summary_df_from_list: shape of every array\<close>
  | AdjustShape          \<comment> \<open>efficiency_gain_df: shape of adjust_nsamp\<close>
  | NamesValuesLength    \<comment> \<open>efficiency_gain_df: as many names as value lists\<close>

datatype py_error =
    TypeError | AssertionError assert_site | ZeroDivisionError
  | ValueError | AttributeError | KeyError | IndexError

definition ebind :: "'e + 'a \<Rightarrow> ('a \<Rightarrow> 'e + 'b) \<Rightarrow> 'e + 'b" where
  "ebind m f = (case m of Inl e \<Rightarrow> Inl e | Inr a \<Rightarrow> f a)"

text \<open>Python's \<^verbatim>\<open>a / b\<close> on two ints.\<close>

definition py_truediv :: "int \<Rightarrow> int \<Rightarrow> py_error + real" where
  "py_truediv a b = (if b = 0 then Inl ZeroDivisionError else Inr (real_of_int a / real_of_int b))"

section \<open>Keyword arguments\<close>

datatype pyval = PNone | PBool bool | PVec "real list"

type_synonym kwargs = "(string \<times> pyval) list"

text \<open>\<^verbatim>\<open>kwargs.pop(key, default)\<close>, returning the value and the remaining dict.\<close>

definition pop :: "kwargs \<Rightarrow> string \<Rightarrow> pyval \<Rightarrow> pyval \<times> kwargs" where
  "pop kw k d =
     (case map_of kw k of
        None \<Rightarrow> (d, kw)
      | Some v \<Rightarrow> (v, filter (\<lambda>p. fst p \<noteq> k) kw))"

text \<open>
  The truth value Python takes in \<^verbatim>\<open>if x:\<close>. A numpy array of more than one element
  has none.
\<close>

definition truthy :: "pyval \<Rightarrow> py_error + bool" where
  "truthy x =
     (case x of
        PNone \<Rightarrow> Inr False
      | PBool b \<Rightarrow> Inr b
      | PVec v \<Rightarrow>
          (if v = [] then Inr False
           else if length v = 1 then Inr (hd v \<noteq> 0)
           else Inl ValueError))"

text \<open>
  \<^verbatim>\<open>x is not None\<close> followed by a read of \<^verbatim>\<open>x.shape\<close>: a bool has no shape.
\<close>

definition as_array :: "pyval \<Rightarrow> py_error + real list option" where
  "as_array x =
     (case x of
        PNone \<Rightarrow> Inr None
      | PBool b \<Rightarrow> Inl AttributeError
      | PVec v \<Rightarrow> Inr (Some v))"

section \<open>Tables\<close>

text \<open>
  A data frame of raw results: named columns, one row per repeat. \<^verbatim>\<open>df.values\<close> is the
  two-dimensional array of its rows; an array is kept with its number of columns, which
  an array without rows still has.
\<close>

record frame =
  columns :: "string list"
  rows :: "real list list"

definition wf_frame :: "frame \<Rightarrow> bool" where
  "wf_frame df = (\<forall>r \<in> set (rows df). length r = length (columns df))"

type_synonym ndarray = "nat \<times> real list list"

definition wf_array :: "ndarray \<Rightarrow> bool" where
  "wf_array a = (\<forall>r \<in> set (snd a). length r = fst a)"

definition values_of :: "frame \<Rightarrow> ndarray" where
  "values_of df = (length (columns df), rows df)"

definition column :: "real list list \<Rightarrow> nat \<Rightarrow> real list" where
  "column rs j = map (\<lambda>r. r ! j) rs"

text \<open>
  Mean and standard deviation along axis 0 (\<^verbatim>\<open>np.mean\<close>, \<^verbatim>\<open>np.std\<close>,
  \<^verbatim>\<open>DataFrame.mean\<close>, \<^verbatim>\<open>DataFrame.std\<close>): not a number where there is nothing to
  divide by.
\<close>

definition mean :: "real list \<Rightarrow> fl" where
  "mean xs = (if xs = [] then NaN else Fin (sum_list xs / real (length xs)))"

definition std_ddof :: "nat \<Rightarrow> real list \<Rightarrow> fl" where
  "std_ddof ddof xs =
     (if length xs \<le> ddof then NaN
      else let m = sum_list xs / real (length xs)
           in Fin (sqrt (sum_list (map (\<lambda>x. (x - m) * (x - m)) xs) / real (length xs - ddof))))"

definition mean_axis0 :: "ndarray \<Rightarrow> fl list" where
  "mean_axis0 a = map (\<lambda>j. mean (column (snd a) j)) [0..<fst a]"

definition std_axis0 :: "nat \<Rightarrow> ndarray \<Rightarrow> fl list" where
  "std_axis0 ddof a = map (\<lambda>j. std_ddof ddof (column (snd a) j)) [0..<fst a]"

text \<open>
  The rows of a result table in their order, each under its index key.
  \<^verbatim>\<open>df.loc[key]\<close> reads a row; \<^verbatim>\<open>df.loc[key, :] = row\<close> overwrites the row of that key
  or appends a new one.
\<close>

type_synonym 'k table = "('k \<times> fl list) list"

definition loc :: "'k table \<Rightarrow> 'k \<Rightarrow> py_error + fl list" where
  "loc t k = (case map_of t k of None \<Rightarrow> Inl KeyError | Some r \<Rightarrow> Inr r)"

definition set_row :: "'k \<Rightarrow> fl list \<Rightarrow> 'k table \<Rightarrow> 'k table" where
  "set_row k r t =
     (if k \<in> fst ` set t then map (\<lambda>p. if fst p = k then (k, r) else p) t
      else t @ [(k, r)])"

text \<open>The code of a label in an ordered categorical: its position in the categories.\<close>

definition cat_code :: "string list \<Rightarrow> string \<Rightarrow> nat" where
  "cat_code cats x = length (takeWhile (\<lambda>c. c \<noteq> x) cats)"

definition calc_categories :: "string list" where
  "calc_categories = [''true values'', ''mean'', ''std'', ''rmse'']"

definition result_categories :: "string list" where
  "result_categories = [''value'', ''uncertainty'']"

definition index_rank :: "string \<times> string \<Rightarrow> nat \<times> nat" where
  "index_rank k = (cat_code calc_categories (fst k), cat_code result_categories (snd k))"

definition sort_index :: "(string \<times> string) table \<Rightarrow> (string \<times> string) table" where
  "sort_index t = sort_key (\<lambda>p. index_rank (fst p)) t"

section \<open>Uncertainty primitives\<close>

definition rmse_and_unc :: "ndarray \<Rightarrow> real list \<Rightarrow> py_error + (fl list \<times> fl list)" where
  "rmse_and_unc values_array true_values =
     (if length true_values \<noteq> fst values_array then Inl (AssertionError RmseShape)
      else
        let errors = map (\<lambda>r. map2 (\<lambda>v t. v - t) r true_values) (snd values_array);
            sq_errors = (fst values_array, map (map (\<lambda>e. e * e)) errors);
            sq_errors_mean = mean_axis0 sq_errors;
            sq_errors_mean_unc =
              map (\<lambda>s. fdiv s (fsqrt (Fin (real (length (snd sq_errors))))))
                (std_axis0 1 sq_errors);
            rmse = map fsqrt sq_errors_mean;
            rmse_unc =
              map2 (\<lambda>r u. fmul (fmul (Fin (1 / 2)) (fdiv (Fin 1) r)) u) rmse sq_errors_mean_unc
        in Inr (rmse, rmse_unc))"

definition array_ratio_std :: "fl list \<Rightarrow> fl list \<Rightarrow> fl list \<Rightarrow> fl list \<Rightarrow> fl list" where
  "array_ratio_std values_n sigmas_n values_d sigmas_d =
     map2 (\<lambda>(vn, sn) (vd, sd).
             fmul (fdiv vn vd)
               (fpow_half (fadd (fsquare (fdiv sn vn)) (fsquare (fdiv sd vd)))))
       (zip values_n sigmas_n) (zip values_d sigmas_d)"

section \<open>Summary tables\<close>

text \<open>
  \<open>summary_df\<close> after its keyword arguments have been taken out of the dict: everything
  from the check of the true values to the sorted table.
\<close>

definition summary_body ::
    "frame \<Rightarrow> pyval \<Rightarrow> pyval \<Rightarrow> pyval \<Rightarrow> py_error + (string \<times> string) table" where
  "summary_body df_in true_values include_true_values include_rmse =
       (ebind (as_array true_values) (\<lambda>tv.
        ebind (case tv of
                 None \<Rightarrow> Inr ()
               | Some v \<Rightarrow>
                   if length v = length (columns df_in) then Inr ()
                   else Inl (AssertionError TrueValuesShape)) (\<lambda>_.
        let df0 = [(''mean'', mean_axis0 (values_of df_in)),
                   (''std'', std_axis0 1 (values_of df_in))]
        in
        ebind (truthy include_true_values) (\<lambda>itv.
        ebind (if itv
               then (case tv of
                       None \<Rightarrow> Inl (AssertionError TrueValuesMissing)
                     | Some v \<Rightarrow> Inr (set_row ''true values'' (map Fin v) df0))
               else Inr df0) (\<lambda>df1.
        let num_cals = length (rows df_in) in
        ebind (loc df1 ''std'') (\<lambda>std_row.
        let mean_unc = map (\<lambda>s. fdiv s (fsqrt (Fin (real num_cals)))) std_row in
        ebind (py_truediv 1 (2 * (int num_cals - 1))) (\<lambda>q.
        let std_unc = map (\<lambda>s. fmul s (fsqrt (Fin q))) std_row;
            df2 = map (\<lambda>p. ((fst p, ''value''), snd p)) df1;
            df3 = set_row (''mean'', ''uncertainty'') mean_unc df2;
            df4 = set_row (''std'', ''uncertainty'') std_unc df3
        in
        ebind (truthy include_rmse) (\<lambda>ir.
        ebind (if ir
               then (case tv of
                       None \<Rightarrow> Inl (AssertionError RmseTrueValues)
                     | Some v \<Rightarrow>
                         ebind (rmse_and_unc (values_of df_in) v) (\<lambda>ru.
                         Inr (set_row (''rmse'', ''uncertainty'') (snd ru)
                                (set_row (''rmse'', ''value'') (fst ru) df4))))
               else Inr df4) (\<lambda>df5.
        Inr (sort_index df5))))))))))"

definition summary_df :: "frame \<Rightarrow> kwargs \<Rightarrow> py_error + (string \<times> string) table" where
  "summary_df df_in kwargs =
     (case pop kwargs ''true_values'' PNone of (true_values, kw1) \<Rightarrow>
      case pop kw1 ''include_true_values'' (PBool False) of (include_true_values, kw2) \<Rightarrow>
      case pop kw2 ''include_rmse'' (PBool False) of (include_rmse, kw3) \<Rightarrow>
      if kw3 \<noteq> [] then Inl TypeError
      else summary_body df_in true_values include_true_values include_rmse)"

text \<open>The adapters in front of \<open>summary_df\<close>. An array is transposed when \<open>axis\<close> is 1.\<close>

definition transpose_nd :: "ndarray \<Rightarrow> ndarray" where
  "transpose_nd a = (length (snd a), map (column (snd a)) [0..<fst a])"

definition summary_df_from_array ::
    "ndarray \<Rightarrow> string list \<Rightarrow> int \<Rightarrow> kwargs \<Rightarrow> py_error + (string \<times> string) table" where
  "summary_df_from_array results_array names axis kwargs =
     (if \<not> (axis = 0 \<or> axis = 1) then Inl (AssertionError AxisRange)
      else
        let a = (if axis = 1 then transpose_nd results_array else results_array)
        in if length names \<noteq> fst a then Inl ValueError
           else summary_df \<lparr>columns = names, rows = snd a\<rparr> kwargs)"

text \<open>\<^verbatim>\<open>np.stack\<close> refuses an empty list of arrays.\<close>

definition summary_df_from_list ::
    "real list list \<Rightarrow> string list \<Rightarrow> kwargs \<Rightarrow> py_error + (string \<times> string) table" where
  "summary_df_from_list results_list names kwargs =
     (if \<exists>arr \<in> set results_list. length arr \<noteq> length names
      then Inl (AssertionError ListShape)
      else if results_list = [] then Inl ValueError
      else summary_df \<lparr>columns = names, rows = results_list\<rparr> kwargs)"

section \<open>Efficiency gains\<close>

text \<open>\<^verbatim>\<open>xs[i]\<close> on a Python list, for an index that is not negative.\<close>

definition nth_e :: "'a list \<Rightarrow> nat \<Rightarrow> py_error + 'a" where
  "nth_e xs i = (if i < length xs then Inr (xs ! i) else Inl IndexError)"

text \<open>
  \<^verbatim>\<open>row *= adjust\<close> for a row of a frame and a numpy array: elementwise when the
  lengths agree, by the single element when the array has one, refused otherwise.
\<close>

definition scale_row :: "fl list \<Rightarrow> fl list \<Rightarrow> py_error + fl list" where
  "scale_row row adjust =
     (if length adjust = length row then Inr (map2 fmul row adjust)
      else if length adjust = 1 then Inr (map (\<lambda>x. fmul x (hd adjust)) row)
      else Inl ValueError)"

text \<open>A Python dict of frames in insertion order.\<close>

definition dict_get :: "(string \<times> 'v) list \<Rightarrow> string \<Rightarrow> py_error + 'v" where
  "dict_get d k = (case map_of d k of None \<Rightarrow> Inl KeyError | Some v \<Rightarrow> Inr v)"

definition dict_set :: "string \<Rightarrow> 'v \<Rightarrow> (string \<times> 'v) list \<Rightarrow> (string \<times> 'v) list" where
  "dict_set k v d =
     (if k \<in> fst ` set d then map (\<lambda>p. if fst p = k then (k, v) else p) d
      else d @ [(k, v)])"

text \<open>The body of the loop over the statistics, for one statistic.\<close>

definition add_gain ::
    "(string \<times> (string \<times> string) table) list \<Rightarrow> string \<Rightarrow> real list option \<Rightarrow>
     (string \<times> string) table \<Rightarrow> string \<Rightarrow> py_error + (string \<times> string) table" where
  "add_gain df_dict base_name adjust_nsamp df stat =
     ebind (dict_get df_dict base_name) (\<lambda>base.
     ebind (loc base (stat, ''value'')) (\<lambda>base_value.
     ebind (loc df (stat, ''value'')) (\<lambda>df_value.
     let ratio = map2 fdiv base_value df_value in
     ebind (loc base (stat, ''uncertainty'')) (\<lambda>base_unc.
     ebind (loc df (stat, ''uncertainty'')) (\<lambda>df_unc.
     let ratio_unc = array_ratio_std base_value base_unc df_value df_unc;
         key = stat @ '' efficiency gain'';
         df1 = set_row (key, ''value'') (map fsquare ratio) df;
         df2 = set_row (key, ''uncertainty'')
                 (map2 (\<lambda>r u. fmul (fmul (Fin 2) r) u) ratio ratio_unc) df1
     in
     case adjust_nsamp of
       None \<Rightarrow> Inr df2
     | Some a \<Rightarrow>
         ebind (nth_e a 0) (\<lambda>a0.
         let adjust = map (\<lambda>x. fdiv (Fin a0) (Fin x)) (drop 1 a) in
         ebind (loc df2 (key, ''value'')) (\<lambda>v.
         ebind (scale_row v adjust) (\<lambda>v'.
         let df3 = set_row (key, ''value'') v' df2 in
         ebind (loc df3 (key, ''uncertainty'')) (\<lambda>u.
         ebind (scale_row u adjust) (\<lambda>u'.
         Inr (set_row (key, ''uncertainty'') u' df3)))))))))))"

fun add_gains ::
    "(string \<times> (string \<times> string) table) list \<Rightarrow> string \<Rightarrow> real list option \<Rightarrow>
     string list \<Rightarrow> (string \<times> string) table \<Rightarrow> py_error + (string \<times> string) table" where
  "add_gains df_dict base_name adjust_nsamp [] df = Inr df"
| "add_gains df_dict base_name adjust_nsamp (stat # stats) df =
     ebind (add_gain df_dict base_name adjust_nsamp df stat)
       (add_gains df_dict base_name adjust_nsamp stats)"

text \<open>The frame of method \<open>i\<close>, given the frames of the methods before it.\<close>

definition method_df ::
    "string list \<Rightarrow> real list list list \<Rightarrow> string list \<Rightarrow> pyval \<Rightarrow> pyval \<Rightarrow>
     real list option \<Rightarrow> (string \<times> (string \<times> string) table) list \<Rightarrow> nat \<Rightarrow>
     py_error + (string \<times> string) table" where
  "method_df method_names method_values est_names true_values include_rmse adjust_nsamp
       df_dict i =
     ebind (nth_e method_values i) (\<lambda>values.
     ebind (summary_df_from_list values est_names
              [(''true_values'', true_values),
               (''include_true_values'', PBool False),
               (''include_rmse'', include_rmse)]) (\<lambda>df.
     if i \<noteq> 0
     then
       ebind (truthy include_rmse) (\<lambda>ir.
       ebind (nth_e method_names 0) (\<lambda>base_name.
       add_gains df_dict base_name adjust_nsamp
         ([''std''] @ (if ir then [''rmse''] else [])) df))
     else Inr df))"

fun methods_loop ::
    "((string \<times> 't) list \<Rightarrow> nat \<Rightarrow> py_error + 't) \<Rightarrow> (nat \<times> string) list \<Rightarrow>
     (string \<times> 't) list \<Rightarrow> py_error + (string \<times> 't) list" where
  "methods_loop body [] df_dict = Inr df_dict"
| "methods_loop body ((i, method_name) # rest) df_dict =
     ebind (body df_dict i) (\<lambda>df. methods_loop body rest (dict_set method_name df df_dict))"

definition gain_categories :: "string list" where
  "gain_categories =
     [''true values'', ''mean'', ''std'', ''rmse'',
      ''std efficiency gain'', ''rmse efficiency gain'']"

text \<open>Index keys of the combined table: calculation type, dynamic settings, result type.\<close>

definition gain_rank :: "string list \<Rightarrow> string \<times> string \<times> string \<Rightarrow> nat \<times> nat \<times> nat" where
  "gain_rank method_names k =
     (cat_code gain_categories (fst k),
      cat_code ([] # method_names) (fst (snd k)),
      cat_code result_categories (snd (snd k)))"

text \<open>
  \<^verbatim>\<open>pd.concat\<close> refuses an empty dict, and a categorical index refuses categories that
  are not distinct. A true-values row without true values is a row of missing values.
\<close>

definition efficiency_gain_body ::
    "string list \<Rightarrow> real list list list \<Rightarrow> string list \<Rightarrow>
     pyval \<Rightarrow> pyval \<Rightarrow> pyval \<Rightarrow> pyval \<Rightarrow>
     py_error + (string \<times> string \<times> string) table" where
  "efficiency_gain_body method_names method_values est_names
       true_values include_true_values include_rmse adjust_nsamp =
       (ebind (as_array adjust_nsamp) (\<lambda>adj.
        ebind (case adj of
                 None \<Rightarrow> Inr ()
               | Some a \<Rightarrow>
                   if length a = length method_names then Inr ()
                   else Inl (AssertionError AdjustShape)) (\<lambda>_.
        if length method_names \<noteq> length method_values
        then Inl (AssertionError NamesValuesLength)
        else
          ebind (methods_loop
                   (method_df method_names method_values est_names true_values include_rmse adj)
                   (enumerate 0 method_names) []) (\<lambda>df_dict.
          if df_dict = [] then Inl ValueError
          else
            let results =
                  concat (map (\<lambda>d. map (\<lambda>p. ((fst d, fst (fst p), snd (fst p)), snd p)) (snd d))
                            df_dict)
            in
            if \<not> distinct ([] # method_names) then Inl ValueError
            else
              let results1 =
                    map (\<lambda>p. ((fst (snd (fst p)), fst (fst p), snd (snd (fst p))), snd p)) results
              in
              ebind (truthy include_true_values) (\<lambda>itv.
              let results2 =
                    (if itv
                     then set_row (''true values'', [], ''value'')
                            (case true_values of
                               PVec v \<Rightarrow> map Fin v
                             | _ \<Rightarrow> replicate (length est_names) NaN)
                            results1
                     else results1)
              in Inr (sort_key (\<lambda>p. gain_rank method_names (fst p)) results2))))))"

definition efficiency_gain_df ::
    "string list \<Rightarrow> real list list list \<Rightarrow> string list \<Rightarrow> kwargs \<Rightarrow>
     py_error + (string \<times> string \<times> string) table" where
  "efficiency_gain_df method_names method_values est_names kwargs =
     (case pop kwargs ''true_values'' PNone of (true_values, kw1) \<Rightarrow>
      case pop kw1 ''include_true_values'' (PBool False) of (include_true_values, kw2) \<Rightarrow>
      case pop kw2 ''include_rmse'' (PBool False) of (include_rmse, kw3) \<Rightarrow>
      case pop kw3 ''adjust_nsamp'' PNone of (adjust_nsamp, kw4) \<Rightarrow>
      if kw4 \<noteq> [] then Inl TypeError
      else efficiency_gain_body method_names method_values est_names
             true_values include_true_values include_rmse adjust_nsamp)"

section \<open>Notions used in the statements\<close>

text \<open>The value a call sees for an option: the one supplied, or the default.\<close>

definition kwarg :: "kwargs \<Rightarrow> string \<Rightarrow> pyval \<Rightarrow> pyval" where
  "kwarg kw k d = (case map_of kw k of None \<Rightarrow> d | Some v \<Rightarrow> v)"

definition summary_options :: "string list" where
  "summary_options = [''true_values'', ''include_true_values'', ''include_rmse'']"

definition gain_options :: "string list" where
  "gain_options =
     [''true_values'', ''include_true_values'', ''include_rmse'', ''adjust_nsamp'']"

text \<open>
  The cells of the two rows of \<open>rmse_and_unc\<close> in the arithmetic of the program, column by
  column: an intermediate form for the proofs.
\<close>

definition sq_error_column :: "ndarray \<Rightarrow> real list \<Rightarrow> nat \<Rightarrow> real list" where
  "sq_error_column a t j = map (\<lambda>r. (r ! j - t ! j)\<^sup>2) (snd a)"

definition rmse_claim :: "ndarray \<Rightarrow> real list \<Rightarrow> nat \<Rightarrow> fl" where
  "rmse_claim a t j = fsqrt (mean (sq_error_column a t j))"

definition mse_unc_claim :: "ndarray \<Rightarrow> real list \<Rightarrow> nat \<Rightarrow> fl" where
  "mse_unc_claim a t j =
     fdiv (std_ddof 1 (sq_error_column a t j)) (fsqrt (Fin (real (length (snd a)))))"

definition rmse_unc_claim :: "ndarray \<Rightarrow> real list \<Rightarrow> nat \<Rightarrow> fl" where
  "rmse_unc_claim a t j = fdiv (fmul (Fin (1 / 2)) (mse_unc_claim a t j)) (rmse_claim a t j)"

text \<open>
  The mean and the sample standard deviation of a column as real numbers, for a table
  with at least two rows, and the calls that inject no true values and ask for no RMSE.
\<close>

definition col_mean :: "frame \<Rightarrow> nat \<Rightarrow> real" where
  "col_mean df j = sum_list (column (rows df) j) / real (length (rows df))"

definition col_std :: "frame \<Rightarrow> nat \<Rightarrow> real" where
  "col_std df j =
     sqrt (sum_list (map (\<lambda>x. (x - col_mean df j)\<^sup>2) (column (rows df) j))
           / (real (length (rows df)) - 1))"


text \<open>
  The gain value row of a statistic, from the value rows of the baseline and of the
  method: the squared ratio, scaled when sample counts are given.
\<close>

definition gain_value_row :: "real list option \<Rightarrow> fl list \<Rightarrow> fl list \<Rightarrow> py_error + fl list" where
  "gain_value_row adj bv dv =
     (case adj of
        None \<Rightarrow> Inr (map fsquare (map2 fdiv bv dv))
      | Some a \<Rightarrow>
          scale_row (map fsquare (map2 fdiv bv dv))
            (map (\<lambda>x. fdiv (Fin (a ! 0)) (Fin x)) (drop 1 a)))"

text \<open>The options that \<open>efficiency_gain_df\<close> passes on for every method.\<close>

definition method_kwargs :: "pyval \<Rightarrow> pyval \<Rightarrow> kwargs" where
  "method_kwargs true_values include_rmse =
     [(''true_values'', true_values), (''include_true_values'', PBool False),
      (''include_rmse'', include_rmse)]"

text \<open>
  The option checks of \<open>summary_df\<close> that come before the uncertainty of the standard
  deviation is computed: only recognised options, true values absent or one per column,
  a truth value for \<open>include_true_values\<close>, and true values present when it is set.
\<close>

definition options_pass :: "frame \<Rightarrow> kwargs \<Rightarrow> bool" where
  "options_pass df kw =
     (fst ` set kw \<subseteq> set summary_options
      \<and> (kwarg kw ''true_values'' PNone = PNone
           \<or> (\<exists>v. kwarg kw ''true_values'' PNone = PVec v \<and> length v = length (columns df)))
      \<and> (\<exists>b. truthy (kwarg kw ''include_true_values'' (PBool False)) = Inr b
              \<and> (b \<longrightarrow> kwarg kw ''true_values'' PNone \<noteq> PNone)))"

text \<open>
  The root mean squared error of column \<open>j\<close> and its uncertainty as real numbers: the mean
  of the squared errors \<open>(value - true)\<^sup>2\<close> over the rows and its root; the sample standard
  deviation (divisor \<open>N - 1\<close>) of the squared errors divided by \<open>sqrt N\<close>; and half of that
  divided by the root mean squared error.
\<close>

definition mse_real :: "ndarray \<Rightarrow> real list \<Rightarrow> nat \<Rightarrow> real" where
  "mse_real a t j = sum_list (map (\<lambda>r. (r ! j - t ! j)\<^sup>2) (snd a)) / real (length (snd a))"

definition rmse_real :: "ndarray \<Rightarrow> real list \<Rightarrow> nat \<Rightarrow> real" where
  "rmse_real a t j = sqrt (mse_real a t j)"

definition mse_unc_real :: "ndarray \<Rightarrow> real list \<Rightarrow> nat \<Rightarrow> real" where
  "mse_unc_real a t j =
     sqrt (sum_list (map (\<lambda>r. ((r ! j - t ! j)\<^sup>2 - mse_real a t j)\<^sup>2) (snd a))
           / (real (length (snd a)) - 1))
     / sqrt (real (length (snd a)))"

definition rmse_unc_real :: "ndarray \<Rightarrow> real list \<Rightarrow> nat \<Rightarrow> real" where
  "rmse_unc_real a t j = (1 / 2) * mse_unc_real a t j / rmse_real a t j"

section \<open>Basic facts\<close>

lemma pop_Nil [simp]: "pop [] k d = (d, [])"
  by (simp add: pop_def)

lemma filter_absent: "map_of kw k = None \<Longrightarrow> filter (\<lambda>p. fst p \<noteq> k) kw = kw"
  by (induction kw) (auto split: if_splits)

lemma pop_eq: "pop kw k d = (kwarg kw k d, filter (\<lambda>p. fst p \<noteq> k) kw)"
  by (auto simp add: pop_def kwarg_def filter_absent split: option.splits)

lemma map_of_filter_fst:
  "map_of (filter (\<lambda>p. P (fst p)) kw) k = (if P k then map_of kw k else None)"
  by (induction kw) auto

lemma kwarg_filter:
  "P k \<Longrightarrow> kwarg (filter (\<lambda>p. P (fst p)) kw) k d = kwarg kw k d"
  by (simp add: kwarg_def map_of_filter_fst)

lemma filter_empty_keys:
  "(filter (\<lambda>p. fst p \<notin> set ks) kw = []) = (fst ` set kw \<subseteq> set ks)"
  by (induction kw) auto

lemma summary_df_eq:
  "summary_df df kw =
     (if fst ` set kw \<subseteq> set summary_options
      then summary_body df (kwarg kw ''true_values'' PNone)
             (kwarg kw ''include_true_values'' (PBool False))
             (kwarg kw ''include_rmse'' (PBool False))
      else Inl TypeError)"
proof -
  define kw1 where "kw1 = filter (\<lambda>p. fst p \<noteq> ''true_values'') kw"
  define kw2 where "kw2 = filter (\<lambda>p. fst p \<noteq> ''include_true_values'') kw1"
  define kw3 where "kw3 = filter (\<lambda>p. fst p \<noteq> ''include_rmse'') kw2"
  have k1: "kwarg kw1 ''include_true_values'' (PBool False)
            = kwarg kw ''include_true_values'' (PBool False)"
    unfolding kw1_def by (rule kwarg_filter) simp
  have "kwarg kw2 ''include_rmse'' (PBool False) = kwarg kw1 ''include_rmse'' (PBool False)"
    unfolding kw2_def by (rule kwarg_filter) simp
  also have "\<dots> = kwarg kw ''include_rmse'' (PBool False)"
    unfolding kw1_def by (rule kwarg_filter) simp
  finally have k2: "kwarg kw2 ''include_rmse'' (PBool False)
                    = kwarg kw ''include_rmse'' (PBool False)" .
  have "kw3 = filter (\<lambda>p. fst p \<notin> set summary_options) kw"
    unfolding kw3_def kw2_def kw1_def
    by (induction kw) (auto simp add: summary_options_def)
  then have k3: "(kw3 = []) = (fst ` set kw \<subseteq> set summary_options)"
    by (simp add: filter_empty_keys)
  have "summary_df df kw =
          (if kw3 \<noteq> [] then Inl TypeError
           else summary_body df (kwarg kw ''true_values'' PNone)
                  (kwarg kw1 ''include_true_values'' (PBool False))
                  (kwarg kw2 ''include_rmse'' (PBool False)))"
    unfolding summary_df_def pop_eq kw3_def kw2_def kw1_def by simp
  then show ?thesis
    by (simp add: k1 k2 k3)
qed

section \<open>Unrecognised options\<close>

lemma efficiency_gain_df_eq:
  "efficiency_gain_df ms vs es kw =
     (if fst ` set kw \<subseteq> set gain_options
      then efficiency_gain_body ms vs es (kwarg kw ''true_values'' PNone)
             (kwarg kw ''include_true_values'' (PBool False))
             (kwarg kw ''include_rmse'' (PBool False))
             (kwarg kw ''adjust_nsamp'' PNone)
      else Inl TypeError)"
proof -
  define kw1 where "kw1 = filter (\<lambda>p. fst p \<noteq> ''true_values'') kw"
  define kw2 where "kw2 = filter (\<lambda>p. fst p \<noteq> ''include_true_values'') kw1"
  define kw3 where "kw3 = filter (\<lambda>p. fst p \<noteq> ''include_rmse'') kw2"
  define kw4 where "kw4 = filter (\<lambda>p. fst p \<noteq> ''adjust_nsamp'') kw3"
  have k1: "kwarg kw1 ''include_true_values'' (PBool False)
            = kwarg kw ''include_true_values'' (PBool False)"
    unfolding kw1_def by (rule kwarg_filter) simp
  have "kwarg kw2 ''include_rmse'' (PBool False) = kwarg kw1 ''include_rmse'' (PBool False)"
    unfolding kw2_def by (rule kwarg_filter) simp
  also have "\<dots> = kwarg kw ''include_rmse'' (PBool False)"
    unfolding kw1_def by (rule kwarg_filter) simp
  finally have k2: "kwarg kw2 ''include_rmse'' (PBool False)
                    = kwarg kw ''include_rmse'' (PBool False)" .
  have "kwarg kw3 ''adjust_nsamp'' PNone = kwarg kw2 ''adjust_nsamp'' PNone"
    unfolding kw3_def by (rule kwarg_filter) simp
  also have "\<dots> = kwarg kw1 ''adjust_nsamp'' PNone"
    unfolding kw2_def by (rule kwarg_filter) simp
  also have "\<dots> = kwarg kw ''adjust_nsamp'' PNone"
    unfolding kw1_def by (rule kwarg_filter) simp
  finally have k3: "kwarg kw3 ''adjust_nsamp'' PNone = kwarg kw ''adjust_nsamp'' PNone" .
  have "kw4 = filter (\<lambda>p. fst p \<notin> set gain_options) kw"
    unfolding kw4_def kw3_def kw2_def kw1_def
    by (induction kw) (auto simp add: gain_options_def)
  then have k4: "(kw4 = []) = (fst ` set kw \<subseteq> set gain_options)"
    by (simp add: filter_empty_keys)
  have "efficiency_gain_df ms vs es kw =
          (if kw4 \<noteq> [] then Inl TypeError
           else efficiency_gain_body ms vs es (kwarg kw ''true_values'' PNone)
                  (kwarg kw1 ''include_true_values'' (PBool False))
                  (kwarg kw2 ''include_rmse'' (PBool False))
                  (kwarg kw3 ''adjust_nsamp'' PNone))"
    unfolding efficiency_gain_df_def pop_eq kw4_def kw3_def kw2_def kw1_def by simp
  then show ?thesis
    by (simp add: k1 k2 k3 k4)
qed

text \<open>
  Claim C6, amended: an option outside the recognised set makes \<open>summary_df\<close> and
  \<open>efficiency_gain_df\<close> fail with the unexpected-option error (a \<^verbatim>\<open>TypeError\<close>) before
  anything else is looked at. The array and list adapters never return a table either,
  but they run their own checks of the axis and of the shapes first, so their error is
  the unexpected-option error exactly when those checks pass.
\<close>

theorem unexpected_option_rejected:
  "(\<not> fst ` set kw \<subseteq> set summary_options \<longrightarrow>
      summary_df df kw = Inl TypeError
      \<and> summary_df_from_array a names axis kw =
          (if \<not> (axis = 0 \<or> axis = 1) then Inl (AssertionError AxisRange)
           else if length names \<noteq> fst (if axis = 1 then transpose_nd a else a) then Inl ValueError
           else Inl TypeError)
      \<and> summary_df_from_list l names kw =
          (if \<exists>arr \<in> set l. length arr \<noteq> length names then Inl (AssertionError ListShape)
           else if l = [] then Inl ValueError
           else Inl TypeError))
   \<and> (\<not> fst ` set kw \<subseteq> set gain_options \<longrightarrow>
        efficiency_gain_df ms vs es kw = Inl TypeError)"
  by (simp add: summary_df_eq efficiency_gain_df_eq summary_df_from_array_def
      summary_df_from_list_def Let_def)

theorem unexpected_option_rejected_witness:
  "\<not> fst ` set [(''unexpected'', PBool True)] \<subseteq> set summary_options
   \<and> \<not> fst ` set [(''unexpected'', PBool True)] \<subseteq> set gain_options
   \<and> summary_df \<lparr>columns = [''a''], rows = [[1], [2]]\<rparr> [(''unexpected'', PBool True)]
       = Inl TypeError
   \<and> summary_df_from_array (1, [[1], [2]]) [''a''] 0 [(''unexpected'', PBool True)]
       = Inl TypeError
   \<and> summary_df_from_list [[1], [2]] [''a''] [(''unexpected'', PBool True)] = Inl TypeError
   \<and> efficiency_gain_df [''old'', ''new''] [[[1], [2]], [[1], [2]]] [''a'']
         [(''unexpected'', PBool True)] = Inl TypeError"
  using unexpected_option_rejected [of "[(''unexpected'', PBool True)]"
      "\<lparr>columns = [''a''], rows = [[1], [2]]\<rparr>" "(1, [[1], [2]])" "[''a'']" 0
      "[[1], [2]]" "[''old'', ''new'']" "[[[1], [2]], [[1], [2]]]" "[''a'']"]
  by (simp add: summary_options_def gain_options_def)

text \<open>
  Claim C6, as stated: every public entry point fails with the unexpected-option error.
  The array adapter called with \<open>axis = 2\<close> and an unknown option fails in its own
  assertion on the axis instead.
\<close>

theorem unexpected_option_counterexample:
  "summary_df_from_array (1, [[1], [2]]) [''a''] 2 [(''unexpected'', PBool True)]
     = Inl (AssertionError AxisRange)
   \<and> summary_df_from_array (1, [[1], [2]]) [''a''] 2 [(''unexpected'', PBool True)]
     \<noteq> Inl TypeError"
  by (simp add: summary_df_from_array_def)

section \<open>Options that need true values\<close>

lemma summary_body_no_true_values_flag:
  "summary_body df PNone (PBool True) ir = Inl (AssertionError TrueValuesMissing)"
  by (simp add: summary_body_def ebind_def as_array_def truthy_def)

lemma summary_body_rmse_no_true_values:
  "summary_body df PNone (PBool False) (PBool True) =
     (if length (rows df) = 1 then Inl ZeroDivisionError
      else Inl (AssertionError RmseTrueValues))"
  by (simp add: summary_body_def ebind_def as_array_def truthy_def loc_def py_truediv_def)

lemma summary_body_rmse_no_table:
  "\<exists>e. summary_body df PNone itv (PBool True) = Inl e"
  by (auto simp add: summary_body_def ebind_def as_array_def truthy_def Let_def
      split: sum.splits)

text \<open>
  Claim C7, amended: a call with recognised options only and without true values never
  returns a table when \<open>include_true_values\<close> or \<open>include_rmse\<close> is set. With
  \<open>include_true_values\<close> the error is the assertion on the true values, for every table.
  With \<open>include_rmse\<close> alone the error is the assertion of the RMSE branch for every table
  but one of a single row, where the division by zero of the standard-deviation
  uncertainty, computed earlier, is raised instead.
\<close>

theorem missing_true_values:
  assumes "fst ` set kw \<subseteq> set summary_options"
    and "kwarg kw ''true_values'' PNone = PNone"
  shows "(kwarg kw ''include_true_values'' (PBool False) = PBool True \<longrightarrow>
            summary_df df kw = Inl (AssertionError TrueValuesMissing))
         \<and> (kwarg kw ''include_rmse'' (PBool False) = PBool True \<longrightarrow>
              (\<exists>e. summary_df df kw = Inl e)
              \<and> (kwarg kw ''include_true_values'' (PBool False) = PBool False \<longrightarrow>
                   summary_df df kw =
                     (if length (rows df) = 1 then Inl ZeroDivisionError
                      else Inl (AssertionError RmseTrueValues))))"
  using assms
  by (auto simp add: summary_df_eq summary_body_no_true_values_flag
      summary_body_rmse_no_true_values summary_body_rmse_no_table)

theorem missing_true_values_witness:
  "fst ` set [(''include_rmse'', PBool True)] \<subseteq> set summary_options
   \<and> kwarg [(''include_rmse'', PBool True)] ''true_values'' PNone = PNone
   \<and> kwarg [(''include_rmse'', PBool True)] ''include_rmse'' (PBool False) = PBool True
   \<and> kwarg [(''include_rmse'', PBool True)] ''include_true_values'' (PBool False) = PBool False
   \<and> summary_df \<lparr>columns = [''a''], rows = [[1], [2]]\<rparr> [(''include_rmse'', PBool True)]
       = Inl (AssertionError RmseTrueValues)"
  using missing_true_values [of "[(''include_rmse'', PBool True)]"
      "\<lparr>columns = [''a''], rows = [[1], [2]]\<rparr>"]
  by (simp add: summary_options_def kwarg_def)

text \<open>
  Claim C7, as stated: \<open>include_rmse\<close> without true values fails with the validation
  error for every input table. For the table of one row the error is a division by zero.
\<close>

theorem missing_true_values_counterexample:
  "summary_df \<lparr>columns = [''a''], rows = [[1]]\<rparr> [(''include_rmse'', PBool True)]
     = Inl ZeroDivisionError
   \<and> summary_df \<lparr>columns = [''a''], rows = [[1]]\<rparr> [(''include_rmse'', PBool True)]
     \<noteq> Inl (AssertionError RmseTrueValues)"
  by (simp add: summary_df_eq summary_options_def kwarg_def summary_body_rmse_no_true_values)

section \<open>Root mean squared error\<close>

lemma half_recip_mul: "fmul (fmul (Fin (1 / 2)) (fdiv (Fin 1) r)) u = fdiv (fmul (Fin (1 / 2)) u) r"
  by (cases r; cases u) (auto simp add: field_simps)

lemma column_sq_errors:
  assumes "\<forall>r \<in> set rs. length r = c" and "length t = c" and "j < c"
  shows "column (map (map (\<lambda>e. e * e)) (map (\<lambda>r. map2 (\<lambda>v t. v - t) r t) rs)) j
         = map (\<lambda>r. (r ! j - t ! j)\<^sup>2) rs"
  using assms by (induction rs) (auto simp add: column_def power2_eq_square)

lemma map2_map_upt:
  "map2 f (map g [0..<n]) (map h [0..<n]) = map (\<lambda>j. f (g j) (h j)) [0..<n]"
  by (induction n) auto

lemma rmse_and_unc_rows:
  assumes "wf_array a" and "length t = fst a"
  shows "rmse_and_unc a t =
           Inr (map (rmse_claim a t) [0..<fst a], map (rmse_unc_claim a t) [0..<fst a])"
proof -
  note len = assms(2)
  define sq where
    "sq = (fst a, map (map (\<lambda>e. e * e)) (map (\<lambda>r. map2 (\<lambda>v t. v - t) r t) (snd a)))"
  have rs: "\<forall>r \<in> set (snd a). length r = fst a"
    using assms by (simp add: wf_array_def)
  have col: "column (snd sq) j = sq_error_column a t j" if "j < fst a" for j
    unfolding sq_error_column_def sq_def snd_conv using column_sq_errors [OF rs len that] .
  have fst_sq: "fst sq = fst a" and len_sq: "length (snd sq) = length (snd a)"
    by (simp_all add: sq_def)
  have m: "mean_axis0 sq = map (\<lambda>j. mean (sq_error_column a t j)) [0..<fst a]"
    by (simp add: mean_axis0_def fst_sq col)
  have s: "std_axis0 1 sq = map (\<lambda>j. std_ddof 1 (sq_error_column a t j)) [0..<fst a]"
    by (simp add: std_axis0_def fst_sq col)
  have "rmse_and_unc a t =
          Inr (map fsqrt (mean_axis0 sq),
               map2 (\<lambda>r u. fmul (fmul (Fin (1 / 2)) (fdiv (Fin 1) r)) u)
                 (map fsqrt (mean_axis0 sq))
                 (map (\<lambda>s. fdiv s (fsqrt (Fin (real (length (snd sq)))))) (std_axis0 1 sq)))"
    unfolding rmse_and_unc_def Let_def sq_def using len by simp
  also have "\<dots> = Inr (map (rmse_claim a t) [0..<fst a], map (rmse_unc_claim a t) [0..<fst a])"
    unfolding m s len_sq
    by (simp add: o_def map2_map_upt half_recip_mul rmse_claim_def rmse_unc_claim_def
        mse_unc_claim_def)
  finally show ?thesis .
qed

lemma mse_real_nonneg: "0 \<le> mse_real a t j"
proof -
  have "0 \<le> sum_list (map (\<lambda>r. (r ! j - t ! j)\<^sup>2) (snd a))"
    by (rule sum_list_nonneg) auto
  then show ?thesis
    by (simp add: mse_real_def)
qed

lemma rmse_claim_real:
  "rmse_claim a t j = (if snd a = [] then NaN else Fin (rmse_real a t j))"
  using mse_real_nonneg [of a t j]
  by (simp add: rmse_claim_def mean_def sq_error_column_def rmse_real_def mse_real_def not_less)

lemma mse_zero_errors:
  assumes "snd a \<noteq> []" and "mse_real a t j = 0"
  shows "\<forall>r \<in> set (snd a). (r ! j - t ! j)\<^sup>2 = 0"
proof -
  have "sum_list (map (\<lambda>r. (r ! j - t ! j)\<^sup>2) (snd a)) = 0"
    using assms by (simp add: mse_real_def)
  moreover have "\<forall>x \<in> set (map (\<lambda>r. (r ! j - t ! j)\<^sup>2) (snd a)). 0 \<le> x"
    by auto
  ultimately have "\<forall>x \<in> set (map (\<lambda>r. (r ! j - t ! j)\<^sup>2) (snd a)). x = 0"
    by (simp only: sum_list_nonneg_eq_0_iff)
  then show ?thesis
    by simp
qed

lemma sum_list_all_zero:
  "(\<And>x. x \<in> set xs \<Longrightarrow> f x = 0) \<Longrightarrow> sum_list (map f xs) = (0 :: real)"
  by (induction xs) auto

lemma mse_unc_zero:
  assumes "snd a \<noteq> []" and "mse_real a t j = 0"
  shows "mse_unc_real a t j = 0"
proof -
  have "sum_list (map (\<lambda>r. ((r ! j - t ! j)\<^sup>2 - mse_real a t j)\<^sup>2) (snd a)) = 0"
  proof (rule sum_list_all_zero)
    fix r
    assume "r \<in> set (snd a)"
    then have "(r ! j - t ! j)\<^sup>2 = 0"
      using mse_zero_errors [OF assms] by blast
    then show "((r ! j - t ! j)\<^sup>2 - mse_real a t j)\<^sup>2 = 0"
      using assms(2) by simp
  qed
  then show ?thesis
    by (simp add: mse_unc_real_def)
qed

lemma mse_unc_claim_real:
  assumes "2 \<le> length (snd a)"
  shows "mse_unc_claim a t j = Fin (mse_unc_real a t j)"
proof -
  have n: "real (length (snd a) - Suc 0) = real (length (snd a)) - 1"
    using assms by (simp add: of_nat_diff)
  have pos: "0 < real (length (snd a))"
    using assms by (cases "snd a") simp_all
  have m: "sum_list (sq_error_column a t j) / real (length (sq_error_column a t j)) = mse_real a t j"
    by (simp add: sq_error_column_def mse_real_def)
  have "std_ddof 1 (sq_error_column a t j)
          = Fin (sqrt (sum_list (map (\<lambda>x. (x - mse_real a t j) * (x - mse_real a t j))
                                   (sq_error_column a t j))
                       / real (length (sq_error_column a t j) - 1)))"
    using assms by (simp add: std_ddof_def Let_def m) (simp add: sq_error_column_def)
  also have "\<dots> = Fin (sqrt (sum_list (map (\<lambda>r. ((r ! j - t ! j)\<^sup>2 - mse_real a t j)\<^sup>2) (snd a))
                       / (real (length (snd a)) - 1)))"
    by (simp add: sq_error_column_def o_def power2_eq_square n)
  finally show ?thesis
    using pos by (simp add: mse_unc_claim_def mse_unc_real_def)
qed

lemma rmse_unc_claim_real:
  "rmse_unc_claim a t j =
     (if length (snd a) < 2 \<or> rmse_real a t j = 0 then NaN else Fin (rmse_unc_real a t j))"
proof (cases "2 \<le> length (snd a)")
  case False
  then have "std_ddof 1 (sq_error_column a t j) = NaN"
    by (simp add: std_ddof_def sq_error_column_def)
  then show ?thesis
    using False by (simp add: rmse_unc_claim_def mse_unc_claim_def)
next
  case True
  then have ne: "snd a \<noteq> []" by (cases "snd a") simp_all
  have r: "rmse_claim a t j = Fin (rmse_real a t j)"
    using ne by (simp add: rmse_claim_real)
  have u: "mse_unc_claim a t j = Fin (mse_unc_real a t j)"
    using True by (rule mse_unc_claim_real)
  show ?thesis
  proof (cases "rmse_real a t j = 0")
    case z: True
    then have "mse_real a t j = 0"
      by (simp add: rmse_real_def)
    then have "mse_unc_real a t j = 0"
      using ne by (intro mse_unc_zero)
    then show ?thesis
      using z by (simp add: rmse_unc_claim_def r u)
  next
    case nz: False
    then show ?thesis
      using True by (simp add: rmse_unc_claim_def r u rmse_unc_real_def)
  qed
qed

lemma sqrt_25: "sqrt 25 = 5"
  using real_sqrt_abs [of 5] by simp

lemma sqrt_1152: "sqrt 1152 = 24 * sqrt 2"
proof -
  have "sqrt 1152 = sqrt (24\<^sup>2 * 2)"
    by simp
  also have "\<dots> = 24 * sqrt 2"
    by (simp only: real_sqrt_mult real_sqrt_abs)
  finally show ?thesis .
qed

text \<open>
  Claim C3: \<open>rmse_and_unc\<close> fails when the number of true values differs from the number
  of columns. Otherwise it returns, for every column, the root of the mean over the rows of
  \<open>(value - true)\<^sup>2\<close>, and the uncertainty \<open>0.5 * u / RMSE\<close>, where \<open>u\<close> is the sample
  standard deviation (divisor \<open>N - 1\<close>) of the squared errors divided by \<open>sqrt N\<close>. Where
  these formulas divide zero by zero the value is not-a-number: both rows without any
  row of data, the uncertainty with fewer than two rows or with a root mean squared error
  of zero.
\<close>

theorem rmse_and_unc_correct:
  assumes "wf_array a"
  shows "(length t \<noteq> fst a \<longrightarrow> rmse_and_unc a t = Inl (AssertionError RmseShape))
       \<and> (length t = fst a \<longrightarrow>
            rmse_and_unc a t =
              Inr (map (\<lambda>j. if snd a = [] then NaN else Fin (rmse_real a t j)) [0..<fst a],
                   map (\<lambda>j. if length (snd a) < 2 \<or> rmse_real a t j = 0 then NaN
                             else Fin (rmse_unc_real a t j)) [0..<fst a]))"
proof (intro conjI impI)
  show "rmse_and_unc a t = Inl (AssertionError RmseShape)" if "length t \<noteq> fst a"
    using that by (simp add: rmse_and_unc_def)
  show "rmse_and_unc a t =
          Inr (map (\<lambda>j. if snd a = [] then NaN else Fin (rmse_real a t j)) [0..<fst a],
               map (\<lambda>j. if length (snd a) < 2 \<or> rmse_real a t j = 0 then NaN
                         else Fin (rmse_unc_real a t j)) [0..<fst a])"
    if "length t = fst a"
  proof -
    have 1: "rmse_claim a t = (\<lambda>j. if snd a = [] then NaN else Fin (rmse_real a t j))"
      by (rule ext) (rule rmse_claim_real)
    have 2: "rmse_unc_claim a t =
               (\<lambda>j. if length (snd a) < 2 \<or> rmse_real a t j = 0 then NaN
                    else Fin (rmse_unc_real a t j))"
      by (rule ext) (rule rmse_unc_claim_real)
    show ?thesis
      using rmse_and_unc_rows [OF assms that] unfolding 1 2 .
  qed
qed

theorem rmse_and_unc_correct_witness:
  "wf_array (2, [[1, 4], [7, 4]])
   \<and> length [0 :: real] \<noteq> fst (2 :: nat, [[1, 4], [7, 4 :: real]])
   \<and> rmse_and_unc (2, [[1, 4], [7, 4]]) [0] = Inl (AssertionError RmseShape)
   \<and> length [0, 4 :: real] = fst (2 :: nat, [[1, 4], [7, 4 :: real]])
   \<and> rmse_and_unc (2, [[1, 4], [7, 4]]) [0, 4] = Inr ([Fin 5, Fin 0], [Fin (12 / 5), NaN])"
proof -
  have w: "wf_array (2, [[1, 4], [7, 4]])"
    by (simp add: wf_array_def)
  have r0: "rmse_real (2, [[1, 4], [7, 4]]) [0, 4] 0 = 5"
    by (simp add: rmse_real_def mse_real_def sqrt_25)
  have r1: "rmse_real (2, [[1, 4], [7, 4]]) [0, 4] (Suc 0) = 0"
    by (simp add: rmse_real_def mse_real_def)
  have u0: "rmse_unc_real (2, [[1, 4], [7, 4]]) [0, 4] 0 = 12 / 5"
    by (simp add: rmse_unc_real_def mse_unc_real_def r0 mse_real_def sqrt_1152)
  have up: "[0..<2] = [0, 1]"
    by (simp add: upt_rec)
  from rmse_and_unc_correct [OF w, of "[0]"] rmse_and_unc_correct [OF w, of "[0, 4]"] w
  show ?thesis
    by (simp add: up r0 r1 u0)
qed

section \<open>Facts about tables\<close>

lemma map_fst_set_row_present:
  "k \<in> fst ` set t \<Longrightarrow> map fst (set_row k r t) = map fst t"
  by (induction t) (auto simp add: set_row_def)

lemma set_row_keys: "fst ` set (set_row k r t) = insert k (fst ` set t)"
proof (cases "k \<in> fst ` set t")
  case True
  then have "set (map fst (set_row k r t)) = set (map fst t)"
    by (simp only: map_fst_set_row_present)
  then show ?thesis using True by auto
next
  case False
  then show ?thesis by (simp add: set_row_def)
qed

lemma distinct_set_row:
  "distinct (map fst t) \<Longrightarrow> distinct (map fst (set_row k r t))"
proof (cases "k \<in> fst ` set t")
  case True
  assume "distinct (map fst t)"
  then show ?thesis using True by (simp add: map_fst_set_row_present)
next
  case False
  assume "distinct (map fst t)"
  then show ?thesis using False by (simp add: set_row_def)
qed

lemma map_of_overwrite:
  "map_of (map (\<lambda>p. if fst p = k then (k, r) else p) t) x =
     (if x = k then (if k \<in> fst ` set t then Some r else None) else map_of t x)"
  by (induction t) (auto simp add: image_iff, force+)

lemma map_of_set_row: "map_of (set_row k r t) = (map_of t)(k \<mapsto> r)"
proof (cases "k \<in> fst ` set t")
  case True
  then show ?thesis
    by (auto simp add: set_row_def fun_eq_iff map_of_overwrite)
next
  case False
  then have "map_of t k = None"
    by (simp add: map_of_eq_None_iff)
  then show ?thesis using False
    by (auto simp add: set_row_def fun_eq_iff map_add_def split: option.splits)
qed

lemma loc_set_row: "loc (set_row k r t) k' = (if k' = k then Inr r else loc t k')"
  by (simp add: loc_def map_of_set_row)

lemma distinct_keys_sort_key:
  "distinct (map fst (sort_key f t)) = distinct (map fst t)"
proof -
  have "mset (map fst (sort_key f t)) = mset (map fst t)"
    by simp
  then show ?thesis
    by (rule mset_eq_imp_distinct_iff)
qed

lemma map_of_sort_key:
  assumes "distinct (map fst t)"
  shows "map_of (sort_key f t) = map_of t"
proof -
  have "distinct (map fst (sort_key f t))"
    using assms by (simp add: distinct_keys_sort_key)
  moreover have "set (sort_key f t) = set t"
    by simp
  ultimately show ?thesis
    using assms by (simp add: map_of_inject_set)
qed

lemma loc_sort_key: "distinct (map fst t) \<Longrightarrow> loc (sort_key f t) k = loc t k"
  by (simp add: loc_def map_of_sort_key)

section \<open>The rows of a summary table\<close>

lemma ebind_Inr: "(ebind m f = Inr y) = (\<exists>x. m = Inr x \<and> f x = Inr y)"
  by (cases m) (simp_all add: ebind_def)

lemma ebind_Inr_simp [simp]: "ebind (Inr x) f = f x"
  by (simp add: ebind_def)

lemma ebind_Inl_simp [simp]: "ebind (Inl e) f = Inl e"
  by (simp add: ebind_def)

lemma summary_body_stages:
  assumes "summary_body df tvp itvp irp = Inr t"
  obtains tv itv df1 std_row q ir df5 where
    "as_array tvp = Inr tv"
    "truthy itvp = Inr itv"
    "(if itv
      then (case tv of
              None \<Rightarrow> Inl (AssertionError TrueValuesMissing)
            | Some v \<Rightarrow> Inr (set_row ''true values'' (map Fin v)
                [(''mean'', mean_axis0 (values_of df)), (''std'', std_axis0 1 (values_of df))]))
      else Inr [(''mean'', mean_axis0 (values_of df)), (''std'', std_axis0 1 (values_of df))])
     = Inr df1"
    "loc df1 ''std'' = Inr std_row"
    "py_truediv 1 (2 * (int (length (rows df)) - 1)) = Inr q"
    "truthy irp = Inr ir"
    "(if ir
      then (case tv of
              None \<Rightarrow> Inl (AssertionError RmseTrueValues)
            | Some v \<Rightarrow>
                ebind (rmse_and_unc (values_of df) v) (\<lambda>ru.
                Inr (set_row (''rmse'', ''uncertainty'') (snd ru)
                       (set_row (''rmse'', ''value'') (fst ru)
                          (set_row (''std'', ''uncertainty'') (map (\<lambda>s. fmul s (fsqrt (Fin q))) std_row)
                             (set_row (''mean'', ''uncertainty'')
                                (map (\<lambda>s. fdiv s (fsqrt (Fin (real (length (rows df)))))) std_row)
                                (map (\<lambda>p. ((fst p, ''value''), snd p)) df1)))))))
      else Inr (set_row (''std'', ''uncertainty'') (map (\<lambda>s. fmul s (fsqrt (Fin q))) std_row)
                  (set_row (''mean'', ''uncertainty'')
                     (map (\<lambda>s. fdiv s (fsqrt (Fin (real (length (rows df)))))) std_row)
                     (map (\<lambda>p. ((fst p, ''value''), snd p)) df1))))
     = Inr df5"
    "t = sort_index df5"
  using assms unfolding summary_body_def Let_def ebind_Inr by blast

lemma map_of_tagged:
  "map_of (map (\<lambda>p. ((fst p, v), snd p)) t) (c, r) = (if r = v then map_of t c else None)"
  by (induction t) auto

lemma keys_tagged: "fst ` set (map (\<lambda>p. ((fst p, v), snd p)) t) = (\<lambda>c. (c, v)) ` fst ` set t"
  by (induction t) auto

lemma distinct_tagged:
  "distinct (map fst (map (\<lambda>p. ((fst p, v), snd p)) t)) = distinct (map fst t)"
proof -
  have "map fst (map (\<lambda>p. ((fst p, v), snd p)) t) = map (\<lambda>c. (c, v)) (map fst t)"
    by simp
  moreover have "inj (\<lambda>c. (c, v))"
    by (simp add: inj_on_def)
  ultimately show ?thesis
    by (simp only: distinct_map) (auto intro: inj_on_subset)
qed

lemma cats_sub:
  "{''true values'', ''mean'', ''std''} \<times> {''value'', ''uncertainty''}
     \<subseteq> set calc_categories \<times> set result_categories"
  by (rule Sigma_mono) (simp_all add: calc_categories_def result_categories_def)

lemma py_truediv_Inr:
  "py_truediv a b = Inr q \<Longrightarrow> b \<noteq> 0 \<and> q = real_of_int a / real_of_int b"
  by (auto simp add: py_truediv_def split: if_splits)

lemma summary_body_rows:
  assumes "summary_body df tvp itvp irp = Inr t"
  shows "distinct (map fst t)"
    and "fst ` set t \<subseteq> set calc_categories \<times> set result_categories"
    and "sorted (map (\<lambda>p. index_rank (fst p)) t)"
    and "length (rows df) \<noteq> 1"
    and "map_of t (''mean'', ''value'') = Some (mean_axis0 (values_of df))"
    and "map_of t (''std'', ''value'') = Some (std_axis0 1 (values_of df))"
    and "map_of t (''mean'', ''uncertainty'') =
           Some (map (\<lambda>s. fdiv s (fsqrt (Fin (real (length (rows df))))))
                   (std_axis0 1 (values_of df)))"
    and "map_of t (''std'', ''uncertainty'') =
           Some (map (\<lambda>s. fmul s (fsqrt (Fin (1 / (2 * (real (length (rows df)) - 1))))))
                   (std_axis0 1 (values_of df)))"
proof -
  define df0 where
    "df0 = [(''mean'', mean_axis0 (values_of df)), (''std'', std_axis0 1 (values_of df))]"
  from assms obtain tv itv df1 std_row q ir df5 where
    "as_array tvp = Inr tv"
    "truthy itvp = Inr itv"
    "(if itv
      then (case tv of
              None \<Rightarrow> Inl (AssertionError TrueValuesMissing)
            | Some v \<Rightarrow> Inr (set_row ''true values'' (map Fin v)
                [(''mean'', mean_axis0 (values_of df)), (''std'', std_axis0 1 (values_of df))]))
      else Inr [(''mean'', mean_axis0 (values_of df)), (''std'', std_axis0 1 (values_of df))])
     = Inr df1"
    "loc df1 ''std'' = Inr std_row"
    "py_truediv 1 (2 * (int (length (rows df)) - 1)) = Inr q"
    "truthy irp = Inr ir"
    "(if ir
      then (case tv of
              None \<Rightarrow> Inl (AssertionError RmseTrueValues)
            | Some v \<Rightarrow>
                ebind (rmse_and_unc (values_of df) v) (\<lambda>ru.
                Inr (set_row (''rmse'', ''uncertainty'') (snd ru)
                       (set_row (''rmse'', ''value'') (fst ru)
                          (set_row (''std'', ''uncertainty'') (map (\<lambda>s. fmul s (fsqrt (Fin q))) std_row)
                             (set_row (''mean'', ''uncertainty'')
                                (map (\<lambda>s. fdiv s (fsqrt (Fin (real (length (rows df)))))) std_row)
                                (map (\<lambda>p. ((fst p, ''value''), snd p)) df1)))))))
      else Inr (set_row (''std'', ''uncertainty'') (map (\<lambda>s. fmul s (fsqrt (Fin q))) std_row)
                  (set_row (''mean'', ''uncertainty'')
                     (map (\<lambda>s. fdiv s (fsqrt (Fin (real (length (rows df)))))) std_row)
                     (map (\<lambda>p. ((fst p, ''value''), snd p)) df1))))
     = Inr df5"
    "t = sort_index df5"
    by (rule summary_body_stages)
  note st = this
  note s1 = st(3) [folded df0_def] and s2 = st(4) and s3 = st(5) and s4 = st(7) and s5 = st(8)
  define df4 where
    "df4 = set_row (''std'', ''uncertainty'') (map (\<lambda>s. fmul s (fsqrt (Fin q))) std_row)
             (set_row (''mean'', ''uncertainty'')
                (map (\<lambda>s. fdiv s (fsqrt (Fin (real (length (rows df)))))) std_row)
                (map (\<lambda>p. ((fst p, ''value''), snd p)) df1))"
  have d0: "distinct (map fst df0)"
    and k0: "fst ` set df0 = {''mean'', ''std''}"
    and m0: "map_of df0 ''mean'' = Some (mean_axis0 (values_of df))"
            "map_of df0 ''std'' = Some (std_axis0 1 (values_of df))"
    by (auto simp add: df0_def)
  have df1_cases: "df1 = df0 \<or> (\<exists>v. df1 = set_row ''true values'' (map Fin v) df0)"
    using s1 by (auto split: if_splits option.splits)
  have d1: "distinct (map fst df1)"
    using df1_cases d0 by (auto simp add: distinct_set_row)
  have k1: "fst ` set df1 \<subseteq> {''true values'', ''mean'', ''std''}"
    using df1_cases by (elim disjE exE) (simp_all add: set_row_keys k0)
  have m1: "map_of df1 ''mean'' = Some (mean_axis0 (values_of df))"
           "map_of df1 ''std'' = Some (std_axis0 1 (values_of df))"
    using df1_cases m0 by (auto simp add: map_of_set_row)
  have std_row: "std_row = std_axis0 1 (values_of df)"
    using s2 m1 by (simp add: loc_def)
  have q: "2 * (int (length (rows df)) - 1) \<noteq> 0"
    "q = 1 / (2 * (real (length (rows df)) - 1))"
    using py_truediv_Inr [OF s3] by simp_all
  have d4: "distinct (map fst df4)"
    unfolding df4_def using d1 by (intro distinct_set_row) (simp only: distinct_tagged)
  have k4: "fst ` set df4 \<subseteq> {''true values'', ''mean'', ''std''} \<times> {''value'', ''uncertainty''}"
    unfolding df4_def using k1 by (auto simp add: set_row_keys keys_tagged)
  have m4: "map_of df4 (''mean'', ''value'') = Some (mean_axis0 (values_of df))"
    "map_of df4 (''std'', ''value'') = Some (std_axis0 1 (values_of df))"
    "map_of df4 (''mean'', ''uncertainty'') =
       Some (map (\<lambda>s. fdiv s (fsqrt (Fin (real (length (rows df)))))) std_row)"
    "map_of df4 (''std'', ''uncertainty'') = Some (map (\<lambda>s. fmul s (fsqrt (Fin q))) std_row)"
    unfolding df4_def by (simp_all add: map_of_set_row map_of_tagged m1)
  have df5_cases:
    "df5 = df4 \<or> (\<exists>a b. df5 = set_row (''rmse'', ''uncertainty'') b (set_row (''rmse'', ''value'') a df4))"
    using s4 unfolding df4_def [symmetric]
    by (cases ir; cases tv) (auto simp add: ebind_Inr)
  have d5: "distinct (map fst df5)"
    using df5_cases d4 by (auto simp add: distinct_set_row)
  have k5: "fst ` set df5 \<subseteq> set calc_categories \<times> set result_categories"
  proof -
    have k4': "fst ` set df4 \<subseteq> set calc_categories \<times> set result_categories"
      using k4 cats_sub by (rule subset_trans)
    have r: "(''rmse'', ''value'') \<in> set calc_categories \<times> set result_categories"
      "(''rmse'', ''uncertainty'') \<in> set calc_categories \<times> set result_categories"
      by (simp_all add: calc_categories_def result_categories_def)
    from df5_cases show ?thesis
    proof (elim disjE exE)
      assume "df5 = df4"
      then show ?thesis using k4' by simp
    next
      fix a b
      assume "df5 = set_row (''rmse'', ''uncertainty'') b (set_row (''rmse'', ''value'') a df4)"
      then show ?thesis using k4' r by (simp only: set_row_keys insert_subset simp_thms)
    qed
  qed
  have m5: "map_of df5 (''mean'', ''value'') = map_of df4 (''mean'', ''value'')"
    "map_of df5 (''std'', ''value'') = map_of df4 (''std'', ''value'')"
    "map_of df5 (''mean'', ''uncertainty'') = map_of df4 (''mean'', ''uncertainty'')"
    "map_of df5 (''std'', ''uncertainty'') = map_of df4 (''std'', ''uncertainty'')"
    using df5_cases by (auto simp add: map_of_set_row)
  have mt: "map_of t = map_of df5"
    unfolding s5 sort_index_def using d5 by (rule map_of_sort_key)
  show "distinct (map fst t)"
    unfolding s5 sort_index_def using d5 by (simp only: distinct_keys_sort_key)
  show "fst ` set t \<subseteq> set calc_categories \<times> set result_categories"
    unfolding s5 sort_index_def using k5 by simp
  show "sorted (map (\<lambda>p. index_rank (fst p)) t)"
    unfolding s5 sort_index_def by (rule sorted_sort_key)
  show "length (rows df) \<noteq> 1"
    using q(1) by auto
  show "map_of t (''mean'', ''value'') = Some (mean_axis0 (values_of df))"
    by (simp only: mt m5 m4)
  show "map_of t (''std'', ''value'') = Some (std_axis0 1 (values_of df))"
    by (simp only: mt m5 m4)
  show "map_of t (''mean'', ''uncertainty'') =
           Some (map (\<lambda>s. fdiv s (fsqrt (Fin (real (length (rows df))))))
                   (std_axis0 1 (values_of df)))"
    by (simp only: mt m5 m4 std_row)
  show "map_of t (''std'', ''uncertainty'') =
           Some (map (\<lambda>s. fmul s (fsqrt (Fin (1 / (2 * (real (length (rows df)) - 1))))))
                   (std_axis0 1 (values_of df)))"
    by (simp only: mt m5 m4 std_row q(2))
qed

section \<open>A single repeat\<close>

text \<open>
  Claim C10, as stated: for a table with exactly one repeat row \<open>summary_df\<close> does not
  raise and returns a table with undefined entries. It does raise: the table of one
  row with one column, summarised without options, gives a division by zero in
  \<^verbatim>\<open>1 / (2 * (num_cals - 1))\<close>, which is a division of Python ints.
\<close>

theorem summary_df_one_repeat_counterexample:
  "\<not> (\<exists>t. summary_df \<lparr>columns = [''a''], rows = [[1]]\<rparr> [] = Inr t)"
  by (simp add: summary_df_def summary_body_def ebind_def as_array_def truthy_def loc_def py_truediv_def)

lemma truthy_error: "truthy x = Inl e \<Longrightarrow> e = ValueError"
  by (auto simp add: truthy_def split: pyval.splits if_splits)

lemma summary_body_one_repeat:
  assumes "length (rows df) = 1"
  shows "summary_body df tvp itvp irp =
     (case tvp of
        PBool b \<Rightarrow> Inl AttributeError
      | PNone \<Rightarrow>
          (case truthy itvp of
             Inl e \<Rightarrow> Inl e
           | Inr b \<Rightarrow> if b then Inl (AssertionError TrueValuesMissing) else Inl ZeroDivisionError)
      | PVec v \<Rightarrow>
          if length v \<noteq> length (columns df) then Inl (AssertionError TrueValuesShape)
          else (case truthy itvp of Inl e \<Rightarrow> Inl e | Inr b \<Rightarrow> Inl ZeroDivisionError))"
  using assms
  by (cases tvp; cases "truthy itvp")
     (auto simp add: summary_body_def as_array_def loc_def py_truediv_def map_of_set_row
       Let_def split: if_splits)

text \<open>
  Claim C10, amended: for a table with exactly one repeat row \<open>summary_df\<close> returns no
  table, whatever the options are. The error is the division by zero of
  \<^verbatim>\<open>1 / (2 * (num_cals - 1))\<close> exactly when the option checks that come before it pass;
  \<open>include_rmse\<close> is not looked at before the division. Without options the error is
  that division by zero.
\<close>

theorem summary_df_one_repeat:
  assumes "length (rows df) = 1"
  shows "(\<forall>kw. \<exists>e. summary_df df kw = Inl e)
       \<and> (\<forall>kw. (summary_df df kw = Inl ZeroDivisionError) = options_pass df kw)
       \<and> summary_df df [] = Inl ZeroDivisionError"
proof (intro conjI allI)
  fix kw
  show "\<exists>e. summary_df df kw = Inl e"
    by (auto simp add: summary_df_eq summary_body_one_repeat [OF assms]
        split: pyval.splits sum.splits)
  show "(summary_df df kw = Inl ZeroDivisionError) = options_pass df kw"
    by (auto simp add: summary_df_eq summary_body_one_repeat [OF assms] options_pass_def
        split: pyval.splits sum.splits dest: truthy_error)
next
  show "summary_df df [] = Inl ZeroDivisionError"
    by (simp add: summary_df_eq summary_body_one_repeat [OF assms] kwarg_def truthy_def)
qed

theorem summary_df_one_repeat_witness:
  "length (rows \<lparr>columns = [''a'', ''b''], rows = [[1, 2]]\<rparr>) = 1
   \<and> options_pass \<lparr>columns = [''a'', ''b''], rows = [[1, 2]]\<rparr>
        [(''true_values'', PVec [0, 0]), (''include_true_values'', PBool True),
         (''include_rmse'', PBool True)]
   \<and> summary_df \<lparr>columns = [''a'', ''b''], rows = [[1, 2]]\<rparr>
        [(''true_values'', PVec [0, 0]), (''include_true_values'', PBool True),
         (''include_rmse'', PBool True)] = Inl ZeroDivisionError
   \<and> \<not> options_pass \<lparr>columns = [''a'', ''b''], rows = [[1, 2]]\<rparr>
        [(''include_true_values'', PBool True)]
   \<and> summary_df \<lparr>columns = [''a'', ''b''], rows = [[1, 2]]\<rparr>
        [(''include_true_values'', PBool True)] \<noteq> Inl ZeroDivisionError
   \<and> (\<exists>e. summary_df \<lparr>columns = [''a'', ''b''], rows = [[1, 2]]\<rparr>
        [(''include_true_values'', PBool True)] = Inl e)
   \<and> summary_df \<lparr>columns = [''a'', ''b''], rows = [[1, 2]]\<rparr> [] = Inl ZeroDivisionError"
proof -
  let ?df = "\<lparr>columns = [''a'', ''b''], rows = [[1, 2 :: real]]\<rparr>"
  have h: "length (rows ?df) = 1" by simp
  have p: "options_pass ?df [(''true_values'', PVec [0, 0]), (''include_true_values'', PBool True),
         (''include_rmse'', PBool True)]"
    by (auto simp add: options_pass_def summary_options_def kwarg_def truthy_def)
  have n: "\<not> options_pass ?df [(''include_true_values'', PBool True)]"
    by (simp add: options_pass_def summary_options_def kwarg_def truthy_def)
  from summary_df_one_repeat [OF h] h p n show ?thesis
    by blast
qed

section \<open>Mean, standard deviation and their uncertainties\<close>

lemmas eval_defs = summary_df_eq summary_options_def kwarg_def summary_body_def as_array_def
  truthy_def loc_def py_truediv_def values_of_def mean_axis0_def std_axis0_def mean_def
  std_ddof_def column_def set_row_def sort_index_def index_rank_def cat_code_def
  calc_categories_def result_categories_def Let_def rmse_and_unc_def


lemma summary_df_example_full:
  "summary_df \<lparr>columns = [''a''], rows = [[0], [1], [2]]\<rparr>
     [(''true_values'', PVec [1]), (''include_true_values'', PBool True),
      (''include_rmse'', PBool True)] =
     Inr [((''true values'', ''value''), [Fin 1]),
          ((''mean'', ''value''), [Fin 1]),
          ((''mean'', ''uncertainty''), [Fin (1 / sqrt 3)]),
          ((''std'', ''value''), [Fin 1]),
          ((''std'', ''uncertainty''), [Fin (1 / 2)]),
          ((''rmse'', ''value''), [Fin (sqrt (2 / 3))]),
          ((''rmse'', ''uncertainty''),
           [Fin (1 / 2 * (1 / sqrt (2 / 3)) * (sqrt (1 / 3) / sqrt 3))])]"
  by (simp add: eval_defs real_sqrt_divide)



lemma mean_axis0_real:
  assumes "rows df \<noteq> []"
  shows "mean_axis0 (values_of df) = map (\<lambda>j. Fin (col_mean df j)) [0..<length (columns df)]"
  using assms by (simp add: mean_axis0_def values_of_def mean_def col_mean_def column_def)

lemma std_axis0_real:
  assumes "2 \<le> length (rows df)"
  shows "std_axis0 1 (values_of df) = map (\<lambda>j. Fin (col_std df j)) [0..<length (columns df)]"
proof -
  have "real (length (rows df) - 1) = real (length (rows df)) - 1"
    using assms by (simp add: of_nat_diff)
  then show ?thesis
    using assms
    by (simp add: std_axis0_def values_of_def std_ddof_def col_std_def col_mean_def column_def
        power2_eq_square Let_def)
qed



section \<open>Row order\<close>

text \<open>
  Claim C4: every table returned by \<open>summary_df\<close> is in the canonical row order, whatever
  the options and the order in which the rows were inserted: the keys are sorted by the
  position of the calculation type in \<open>true values, mean, std, rmse\<close> and then by the
  position of the result type in \<open>value, uncertainty\<close>; they are distinct and all lie in
  those categories, so the order is strict.
\<close>


theorem summary_df_sorted:
  assumes "summary_df df kw = Inr t"
  shows "sorted (map (\<lambda>p. index_rank (fst p)) t)
       \<and> distinct (map fst t)
       \<and> fst ` set t \<subseteq> set calc_categories \<times> set result_categories"
proof -
  from assms have b: "summary_body df (kwarg kw ''true_values'' PNone)
                  (kwarg kw ''include_true_values'' (PBool False))
                  (kwarg kw ''include_rmse'' (PBool False)) = Inr t"
    by (simp add: summary_df_eq split: if_splits)
  show ?thesis
    using summary_body_rows(1-3) [OF b] by simp
qed

theorem summary_df_sorted_witness:
  "summary_df \<lparr>columns = [''a''], rows = [[0], [1], [2]]\<rparr>
     [(''true_values'', PVec [1]), (''include_true_values'', PBool True),
      (''include_rmse'', PBool True)] =
     Inr [((''true values'', ''value''), [Fin 1]),
          ((''mean'', ''value''), [Fin 1]),
          ((''mean'', ''uncertainty''), [Fin (1 / sqrt 3)]),
          ((''std'', ''value''), [Fin 1]),
          ((''std'', ''uncertainty''), [Fin (1 / 2)]),
          ((''rmse'', ''value''), [Fin (sqrt (2 / 3))]),
          ((''rmse'', ''uncertainty''),
           [Fin (1 / 2 * (1 / sqrt (2 / 3)) * (sqrt (1 / 3) / sqrt 3))])]
   \<and> sorted (map index_rank
         [(''true values'', ''value''), (''mean'', ''value''), (''mean'', ''uncertainty''),
          (''std'', ''value''), (''std'', ''uncertainty''), (''rmse'', ''value''),
          (''rmse'', ''uncertainty'')])"
  using summary_df_sorted [OF summary_df_example_full] summary_df_example_full
  by simp

section \<open>The loop over the methods\<close>

lemma dict_set_fresh: "k \<notin> fst ` set d \<Longrightarrow> dict_set k v d = d @ [(k, v)]"
  by (simp add: dict_set_def)

lemma methods_loop_append:
  assumes "methods_loop body xs d = Inr d'"
    and "distinct (map snd xs)"
    and "snd ` set xs \<inter> fst ` set d = {}"
  shows "\<exists>dfs. length dfs = length xs \<and> d' = d @ zip (map snd xs) dfs
           \<and> (\<forall>k < length xs.
                 body (d @ zip (map snd (take k xs)) (take k dfs)) (fst (xs ! k)) = Inr (dfs ! k))"
  using assms
proof (induction xs arbitrary: d)
  case Nil
  then show ?case by simp
next
  case (Cons x xs)
  obtain i n where x: "x = (i, n)"
    by (cases x)
  from Cons.prems(1) obtain df where
    b: "body d i = Inr df" and r: "methods_loop body xs (dict_set n df d) = Inr d'"
    by (auto simp add: x ebind_Inr)
  have fresh: "n \<notin> fst ` set d"
    using Cons.prems(3) by (auto simp add: x)
  have ds: "dict_set n df d = d @ [(n, df)]"
    using fresh by (rule dict_set_fresh)
  have dis: "distinct (map snd xs)"
    using Cons.prems(2) by simp
  have disj: "snd ` set xs \<inter> fst ` set (d @ [(n, df)]) = {}"
    using Cons.prems(2,3) by (auto simp add: x)
  from Cons.IH [OF r [unfolded ds] dis disj] obtain dfs where
    l: "length dfs = length xs"
    and e: "d' = (d @ [(n, df)]) @ zip (map snd xs) dfs"
    and s: "\<forall>k < length xs.
              body ((d @ [(n, df)]) @ zip (map snd (take k xs)) (take k dfs)) (fst (xs ! k))
                = Inr (dfs ! k)"
    by blast
  have "\<forall>k < length (x # xs).
          body (d @ zip (map snd (take k (x # xs))) (take k (df # dfs))) (fst ((x # xs) ! k))
            = Inr ((df # dfs) ! k)"
  proof (intro allI impI)
    fix k
    assume k: "k < length (x # xs)"
    show "body (d @ zip (map snd (take k (x # xs))) (take k (df # dfs))) (fst ((x # xs) ! k))
            = Inr ((df # dfs) ! k)"
    proof (cases k)
      case 0
      then show ?thesis using b by (simp add: x)
    next
      case (Suc j)
      then have "j < length xs" using k by simp
      then show ?thesis using s Suc by (simp add: x)
    qed
  qed
  moreover have "length (df # dfs) = length (x # xs)"
    using l by simp
  moreover have "d' = d @ zip (map snd (x # xs)) (df # dfs)"
    using e by (simp add: x)
  ultimately show ?case by blast
qed

lemma methods_loop_enumerate:
  assumes "methods_loop body (enumerate 0 ms) [] = Inr d'"
    and "distinct ms"
  shows "\<exists>dfs. length dfs = length ms \<and> d' = zip ms dfs
           \<and> (\<forall>k < length ms. body (zip (take k ms) (take k dfs)) k = Inr (dfs ! k))"
proof -
  have m: "map snd (enumerate 0 ms) = ms"
    by (simp add: enumerate_eq_zip)
  have t: "map snd (take k (enumerate 0 ms)) = take k ms" for k
    by (simp add: enumerate_eq_zip take_map [symmetric] take_zip)
  have f: "fst (enumerate 0 ms ! k) = k" if "k < length ms" for k
    using that by (simp add: nth_enumerate_eq)
  from methods_loop_append [OF assms(1)] assms(2) obtain dfs where
    "length dfs = length (enumerate 0 ms)"
    "d' = [] @ zip (map snd (enumerate 0 ms)) dfs"
    "\<forall>k < length (enumerate 0 ms).
       body ([] @ zip (map snd (take k (enumerate 0 ms))) (take k dfs)) (fst (enumerate 0 ms ! k))
         = Inr (dfs ! k)"
    unfolding m by auto
  then show ?thesis
    by (auto simp add: m t f)
qed

lemma nth_e_Inr: "(nth_e xs i = Inr v) = (i < length xs \<and> v = xs ! i)"
  by (auto simp add: nth_e_def)

lemma method_df_first:
  assumes "method_df ms vs es tvp irp adj d 0 = Inr df"
  shows "0 < length vs
       \<and> summary_df_from_list (vs ! 0) es
            [(''true_values'', tvp), (''include_true_values'', PBool False),
             (''include_rmse'', irp)] = Inr df"
  using assms by (auto simp add: method_df_def ebind_Inr nth_e_Inr)

lemma method_df_later:
  assumes "method_df ms vs es tvp irp adj d k = Inr df" and "k \<noteq> 0"
  shows "\<exists>s ir. k < length vs
       \<and> summary_df_from_list (vs ! k) es
            [(''true_values'', tvp), (''include_true_values'', PBool False),
             (''include_rmse'', irp)] = Inr s
       \<and> truthy irp = Inr ir \<and> 0 < length ms
       \<and> add_gains d (ms ! 0) adj (''std'' # (if ir then [''rmse''] else [])) s = Inr df"
  using assms by (auto simp add: method_df_def ebind_Inr nth_e_Inr)

section \<open>Gain rows\<close>

text \<open>The gain value row that one pass of the loop over the statistics writes.\<close>

lemma add_gain_Inr:
  assumes "add_gain d b adj df stat = Inr df'"
  obtains base bv dv v where
    "dict_get d b = Inr base"
    "loc base (stat, ''value'') = Inr bv"
    "loc df (stat, ''value'') = Inr dv"
    "gain_value_row adj bv dv = Inr v"
    "map_of df' (stat @ '' efficiency gain'', ''value'') = Some v"
    "\<forall>k. fst k \<noteq> stat @ '' efficiency gain'' \<longrightarrow> map_of df' k = map_of df k"
    "distinct (map fst df) \<longrightarrow> distinct (map fst df')"
proof (cases adj)
  case None
  from assms obtain base bv dv bu du where
    1: "dict_get d b = Inr base" "loc base (stat, ''value'') = Inr bv"
       "loc df (stat, ''value'') = Inr dv"
    and 2: "df' = set_row (stat @ '' efficiency gain'', ''uncertainty'')
                 (map2 (\<lambda>r u. fmul (fmul (Fin 2) r) u) (map2 fdiv bv dv)
                    (array_ratio_std bv bu dv du))
                 (set_row (stat @ '' efficiency gain'', ''value'')
                    (map fsquare (map2 fdiv bv dv)) df)"
    unfolding add_gain_def Let_def ebind_Inr None by auto
  show ?thesis
  proof (rule that [OF 1])
    show "gain_value_row adj bv dv = Inr (map fsquare (map2 fdiv bv dv))"
      by (simp add: None gain_value_row_def)
    show "map_of df' (stat @ '' efficiency gain'', ''value'') = Some (map fsquare (map2 fdiv bv dv))"
      by (simp add: 2 map_of_set_row)
    show "\<forall>k. fst k \<noteq> stat @ '' efficiency gain'' \<longrightarrow> map_of df' k = map_of df k"
      by (auto simp add: 2 map_of_set_row)
    show "distinct (map fst df) \<longrightarrow> distinct (map fst df')"
      by (simp add: 2 distinct_set_row)
  qed
next
  case (Some a)
  from assms obtain base bv dv bu du a0 v0 v u0 u where
    1: "dict_get d b = Inr base" "loc base (stat, ''value'') = Inr bv"
       "loc df (stat, ''value'') = Inr dv"
    and a0: "nth_e a 0 = Inr a0"
    and v0: "loc (set_row (stat @ '' efficiency gain'', ''uncertainty'')
                 (map2 (\<lambda>r u. fmul (fmul (Fin 2) r) u) (map2 fdiv bv dv)
                    (array_ratio_std bv bu dv du))
                 (set_row (stat @ '' efficiency gain'', ''value'')
                    (map fsquare (map2 fdiv bv dv)) df))
               (stat @ '' efficiency gain'', ''value'') = Inr v0"
    and v: "scale_row v0 (map (\<lambda>x. fdiv (Fin a0) (Fin x)) (drop 1 a)) = Inr v"
    and 2: "df' = set_row (stat @ '' efficiency gain'', ''uncertainty'') u
                 (set_row (stat @ '' efficiency gain'', ''value'') v
                 (set_row (stat @ '' efficiency gain'', ''uncertainty'')
                 (map2 (\<lambda>r u. fmul (fmul (Fin 2) r) u) (map2 fdiv bv dv)
                    (array_ratio_std bv bu dv du))
                 (set_row (stat @ '' efficiency gain'', ''value'')
                    (map fsquare (map2 fdiv bv dv)) df)))"
    unfolding add_gain_def Let_def ebind_Inr Some option.case by blast
  have v0': "v0 = map fsquare (map2 fdiv bv dv)"
    using v0 by (simp add: loc_set_row)
  have a0': "a \<noteq> []" "a0 = a ! 0"
    using a0 by (auto simp add: nth_e_Inr)
  show ?thesis
  proof (rule that [OF 1])
    show "gain_value_row adj bv dv = Inr v"
      using v a0' by (simp add: Some v0' gain_value_row_def)
    show "map_of df' (stat @ '' efficiency gain'', ''value'') = Some v"
      by (simp add: 2 map_of_set_row)
    show "\<forall>k. fst k \<noteq> stat @ '' efficiency gain'' \<longrightarrow> map_of df' k = map_of df k"
      by (auto simp add: 2 map_of_set_row)
    show "distinct (map fst df) \<longrightarrow> distinct (map fst df')"
      by (simp add: 2 distinct_set_row)
  qed
qed

lemma add_gains_Inr:
  assumes "add_gains d b adj (''std'' # (if ir then [''rmse''] else [])) s = Inr df"
  shows "\<exists>base bv dv v. dict_get d b = Inr base
       \<and> loc base (''std'', ''value'') = Inr bv
       \<and> loc s (''std'', ''value'') = Inr dv
       \<and> gain_value_row adj bv dv = Inr v
       \<and> map_of df (''std efficiency gain'', ''value'') = Some v
       \<and> (ir \<longrightarrow> (\<exists>bv' dv' v'. loc base (''rmse'', ''value'') = Inr bv'
              \<and> loc s (''rmse'', ''value'') = Inr dv'
              \<and> gain_value_row adj bv' dv' = Inr v'
              \<and> map_of df (''rmse efficiency gain'', ''value'') = Some v'))
       \<and> (\<forall>k. fst k \<noteq> ''std efficiency gain'' \<and> fst k \<noteq> ''rmse efficiency gain''
              \<longrightarrow> map_of df k = map_of s k)
       \<and> (distinct (map fst s) \<longrightarrow> distinct (map fst df))"
proof -
  from assms obtain df1 where
    g1: "add_gain d b adj s ''std'' = Inr df1"
    and r: "add_gains d b adj (if ir then [''rmse''] else []) df1 = Inr df"
    by (auto simp add: ebind_Inr)
  from g1 obtain base bv dv v where
    1: "dict_get d b = Inr base" "loc base (''std'', ''value'') = Inr bv"
       "loc s (''std'', ''value'') = Inr dv" "gain_value_row adj bv dv = Inr v"
    and m1: "map_of df1 (''std'' @ '' efficiency gain'', ''value'') = Some v"
    and o1: "\<forall>k. fst k \<noteq> ''std'' @ '' efficiency gain'' \<longrightarrow> map_of df1 k = map_of s k"
    and d1: "distinct (map fst s) \<longrightarrow> distinct (map fst df1)"
    by (rule add_gain_Inr)
  show ?thesis
  proof (cases ir)
    case False
    then have "df = df1" using r by simp
    then show ?thesis using 1 m1 o1 d1 False by auto
  next
    case True
    then have g2: "add_gain d b adj df1 ''rmse'' = Inr df"
      using r by (simp add: ebind_Inr)
    from g2 obtain base' bv' dv' v' where
      2: "dict_get d b = Inr base'" "loc base' (''rmse'', ''value'') = Inr bv'"
         "loc df1 (''rmse'', ''value'') = Inr dv'" "gain_value_row adj bv' dv' = Inr v'"
      and m2: "map_of df (''rmse'' @ '' efficiency gain'', ''value'') = Some v'"
      and o2: "\<forall>k. fst k \<noteq> ''rmse'' @ '' efficiency gain'' \<longrightarrow> map_of df k = map_of df1 k"
      and d2: "distinct (map fst df1) \<longrightarrow> distinct (map fst df)"
      by (rule add_gain_Inr)
    have b: "base' = base" using 1(1) 2(1) by simp
    have "map_of df1 (''rmse'', ''value'') = map_of s (''rmse'', ''value'')"
      using o1 by simp
    then have l: "loc s (''rmse'', ''value'') = Inr dv'"
      using 2(3) by (simp add: loc_def)
    have "map_of df (''std efficiency gain'', ''value'') = map_of df1 (''std efficiency gain'', ''value'')"
      using o2 by simp
    then have m: "map_of df (''std efficiency gain'', ''value'') = Some v"
      using m1 by simp
    have o: "\<forall>k. fst k \<noteq> ''std efficiency gain'' \<and> fst k \<noteq> ''rmse efficiency gain''
              \<longrightarrow> map_of df k = map_of s k"
      using o1 o2 by simp
    show ?thesis
      using 1 2(2,4) [unfolded b] l m m2 o d1 d2 by auto
  qed
qed

section \<open>The combined table\<close>

lemma map_of_method_rows:
  "map_of (map (\<lambda>p. ((fst (fst p), n, snd (fst p)), snd p)) df) (c, n', r)
     = (if n' = n then map_of df (c, r) else None)"
  by (induction df) auto

lemma keys_method_rows:
  "fst ` set (map (\<lambda>p. ((fst (fst p), n, snd (fst p)), snd p)) df)
     = (\<lambda>k. (fst k, n, snd k)) ` fst ` set df"
  by (induction df) auto

lemma distinct_insert_name:
  "distinct (map (\<lambda>k. (fst k, n, snd k)) ks) = distinct ks"
  by (auto simp add: distinct_map inj_on_def prod_eq_iff)

lemma distinct_method_rows:
  "distinct (map fst (map (\<lambda>p. ((fst (fst p), n, snd (fst p)), snd p)) df))
     = distinct (map fst df)"
proof -
  have a: "map fst (map (\<lambda>p. ((fst (fst p), n, snd (fst p)), snd p)) df)
          = map (\<lambda>k. (fst k, n, snd k)) (map fst df)"
    by simp
  show ?thesis
    unfolding a by (rule distinct_insert_name)
qed

lemma combined_rows:
  assumes "distinct (map fst d)"
    and "\<forall>e \<in> set d. distinct (map fst (snd e))"
  shows "distinct (map fst
           (concat (map (\<lambda>e. map (\<lambda>p. ((fst (fst p), fst e, snd (fst p)), snd p)) (snd e)) d)))
       \<and> fst ` set (concat (map (\<lambda>e. map (\<lambda>p. ((fst (fst p), fst e, snd (fst p)), snd p)) (snd e)) d))
           \<subseteq> {k. fst (snd k) \<in> fst ` set d}
       \<and> (\<forall>c n r. map_of
              (concat (map (\<lambda>e. map (\<lambda>p. ((fst (fst p), fst e, snd (fst p)), snd p)) (snd e)) d))
              (c, n, r)
            = (case map_of d n of None \<Rightarrow> None | Some df \<Rightarrow> map_of df (c, r)))"
  using assms
proof (induction d)
  case Nil
  then show ?case by simp
next
  case (Cons e d)
  obtain n df where e: "e = (n, df)"
    by (cases e)
  let ?R = "concat (map (\<lambda>e. map (\<lambda>p. ((fst (fst p), fst e, snd (fst p)), snd p)) (snd e)) d)"
  let ?A = "map (\<lambda>p. ((fst (fst p), n, snd (fst p)), snd p)) df"
  have ih: "distinct (map fst ?R)"
    "fst ` set ?R \<subseteq> {k. fst (snd k) \<in> fst ` set d}"
    "\<forall>c n r. map_of ?R (c, n, r)
       = (case map_of d n of None \<Rightarrow> None | Some df \<Rightarrow> map_of df (c, r))"
    using Cons.IH Cons.prems by auto
  have fresh: "n \<notin> fst ` set d"
    using Cons.prems(1) by (simp add: e)
  have dA: "distinct (map fst ?A)"
    using Cons.prems(2) by (simp only: distinct_method_rows) (simp add: e)
  have kA: "fst ` set ?A \<subseteq> {k. fst (snd k) = n}"
    by (simp only: keys_method_rows) auto
  have disj: "fst ` set ?A \<inter> fst ` set ?R = {}"
    using kA ih(2) fresh by blast
  have disj': "set (map fst ?A) \<inter> set (map fst ?R) = {}"
    using disj by (simp only: set_map)
  have 1: "distinct (map fst (?A @ ?R))"
    by (simp only: map_append distinct_append dA ih(1) disj' simp_thms)
  have un: "fst ` set (?A @ ?R) = fst ` set ?A \<union> fst ` set ?R"
    by (simp only: set_append image_Un)
  have ins: "fst ` set (e # d) = insert n (fst ` set d)"
    by (simp add: e)
  have 2: "fst ` set (?A @ ?R) \<subseteq> {k. fst (snd k) \<in> fst ` set (e # d)}"
    unfolding un ins using kA ih(2) by blast
  have 3: "map_of (?A @ ?R) (c, n', r)
       = (case map_of (e # d) n' of None \<Rightarrow> None | Some df \<Rightarrow> map_of df (c, r))" for c n' r
  proof (cases "n' = n")
    case True
    have "map_of d n = None"
      using fresh by (simp add: map_of_eq_None_iff)
    then have "map_of ?R (c, n, r) = None"
      using ih(3) by simp
    then show ?thesis
      using True by (simp add: e map_of_method_rows map_add_def split: option.splits)
  next
    case False
    then show ?thesis
      using ih(3) by (simp add: e map_of_method_rows map_add_def split: option.splits)
  qed
  show ?case
    using 1 2 3 by (simp add: e)
qed

lemma efficiency_gain_body_stages:
  assumes "efficiency_gain_body ms vs es tvp itvp irp adjp = Inr t"
  obtains adj df_dict itv where
    "as_array adjp = Inr adj"
    "length ms = length vs"
    "methods_loop (method_df ms vs es tvp irp adj) (enumerate 0 ms) [] = Inr df_dict"
    "df_dict \<noteq> []"
    "distinct ([] # ms)"
    "truthy itvp = Inr itv"
    "t = sort_key (\<lambda>p. gain_rank ms (fst p))
           (if itv
            then set_row (''true values'', [], ''value'')
                   (case tvp of PVec v \<Rightarrow> map Fin v | _ \<Rightarrow> replicate (length es) NaN)
                   (map (\<lambda>p. ((fst (snd (fst p)), fst (fst p), snd (snd (fst p))), snd p))
                      (concat (map (\<lambda>d. map (\<lambda>p. ((fst d, fst (fst p), snd (fst p)), snd p)) (snd d))
                                 df_dict)))
            else map (\<lambda>p. ((fst (snd (fst p)), fst (fst p), snd (snd (fst p))), snd p))
                   (concat (map (\<lambda>d. map (\<lambda>p. ((fst d, fst (fst p), snd (fst p)), snd p)) (snd d))
                              df_dict)))"
proof -
  from assms obtain adj where a: "as_array adjp = Inr adj"
    and r1: "ebind (case adj of
                 None \<Rightarrow> Inr ()
               | Some a \<Rightarrow>
                   if length a = length ms then Inr ()
                   else Inl (AssertionError AdjustShape)) (\<lambda>_.
        if length ms \<noteq> length vs
        then Inl (AssertionError NamesValuesLength)
        else
          ebind (methods_loop (method_df ms vs es tvp irp adj) (enumerate 0 ms) []) (\<lambda>df_dict.
          if df_dict = [] then Inl ValueError
          else
            let results =
                  concat (map (\<lambda>d. map (\<lambda>p. ((fst d, fst (fst p), snd (fst p)), snd p)) (snd d))
                            df_dict)
            in
            if \<not> distinct ([] # ms) then Inl ValueError
            else
              let results1 =
                    map (\<lambda>p. ((fst (snd (fst p)), fst (fst p), snd (snd (fst p))), snd p)) results
              in
              ebind (truthy itvp) (\<lambda>itv.
              let results2 =
                    (if itv
                     then set_row (''true values'', [], ''value'')
                            (case tvp of
                               PVec v \<Rightarrow> map Fin v
                             | _ \<Rightarrow> replicate (length es) NaN)
                            results1
                     else results1)
              in Inr (sort_key (\<lambda>p. gain_rank ms (fst p)) results2)))) = Inr t"
    unfolding efficiency_gain_body_def ebind_Inr by blast
  from r1 have l: "length ms = length vs"
    by (auto simp add: ebind_Inr split: if_splits)
  from r1 l obtain df_dict where
    m: "methods_loop (method_df ms vs es tvp irp adj) (enumerate 0 ms) [] = Inr df_dict"
    and r2: "(if df_dict = [] then Inl ValueError
          else
            let results =
                  concat (map (\<lambda>d. map (\<lambda>p. ((fst d, fst (fst p), snd (fst p)), snd p)) (snd d))
                            df_dict)
            in
            if \<not> distinct ([] # ms) then Inl ValueError
            else
              let results1 =
                    map (\<lambda>p. ((fst (snd (fst p)), fst (fst p), snd (snd (fst p))), snd p)) results
              in
              ebind (truthy itvp) (\<lambda>itv.
              let results2 =
                    (if itv
                     then set_row (''true values'', [], ''value'')
                            (case tvp of
                               PVec v \<Rightarrow> map Fin v
                             | _ \<Rightarrow> replicate (length es) NaN)
                            results1
                     else results1)
              in Inr (sort_key (\<lambda>p. gain_rank ms (fst p)) results2))) = Inr t"
    by (auto simp add: ebind_Inr split: if_splits)
  from r2 have ne: "df_dict \<noteq> []" and dis: "distinct ([] # ms)"
    by (auto simp add: Let_def split: if_splits)
  from r2 ne dis obtain itv where
    i: "truthy itvp = Inr itv"
    and e: "t = sort_key (\<lambda>p. gain_rank ms (fst p))
           (if itv
            then set_row (''true values'', [], ''value'')
                   (case tvp of PVec v \<Rightarrow> map Fin v | _ \<Rightarrow> replicate (length es) NaN)
                   (map (\<lambda>p. ((fst (snd (fst p)), fst (fst p), snd (snd (fst p))), snd p))
                      (concat (map (\<lambda>d. map (\<lambda>p. ((fst d, fst (fst p), snd (fst p)), snd p)) (snd d))
                                 df_dict)))
            else map (\<lambda>p. ((fst (snd (fst p)), fst (fst p), snd (snd (fst p))), snd p))
                   (concat (map (\<lambda>d. map (\<lambda>p. ((fst d, fst (fst p), snd (fst p)), snd p)) (snd d))
                              df_dict)))"
    by (auto simp add: Let_def ebind_Inr split: if_splits)
  show ?thesis
    using a l m ne dis i e by (rule that)
qed

lemma rekey_concat:
  "map (\<lambda>p. ((fst (snd (fst p)), fst (fst p), snd (snd (fst p))), snd p))
     (concat (map (\<lambda>d. map (\<lambda>p. ((fst d, fst (fst p), snd (fst p)), snd p)) (snd d)) df_dict))
   = concat (map (\<lambda>e. map (\<lambda>p. ((fst (fst p), fst e, snd (fst p)), snd p)) (snd e)) df_dict)"
  by (induction df_dict) simp_all

lemma gain_table_lookup:
  assumes "t = sort_key f
           (if itv
            then set_row (''true values'', [], ''value'') row
                   (map (\<lambda>p. ((fst (snd (fst p)), fst (fst p), snd (snd (fst p))), snd p))
                      (concat (map (\<lambda>d. map (\<lambda>p. ((fst d, fst (fst p), snd (fst p)), snd p)) (snd d))
                                 df_dict)))
            else map (\<lambda>p. ((fst (snd (fst p)), fst (fst p), snd (snd (fst p))), snd p))
                   (concat (map (\<lambda>d. map (\<lambda>p. ((fst d, fst (fst p), snd (fst p)), snd p)) (snd d))
                              df_dict)))"
    and "distinct (map fst df_dict)"
    and "\<forall>e \<in> set df_dict. distinct (map fst (snd e))"
    and "n \<noteq> []"
  shows "map_of t (c, n, r) = (case map_of df_dict n of None \<Rightarrow> None | Some df \<Rightarrow> map_of df (c, r))"
proof -
  let ?R = "concat (map (\<lambda>e. map (\<lambda>p. ((fst (fst p), fst e, snd (fst p)), snd p)) (snd e)) df_dict)"
  let ?R2 = "if itv then set_row (''true values'', [], ''value'') row ?R else ?R"
  have t: "t = sort_key f ?R2"
    using assms(1) by (simp only: rekey_concat)
  have dR: "distinct (map fst ?R)"
    and mR: "map_of ?R (c, n, r)
               = (case map_of df_dict n of None \<Rightarrow> None | Some df \<Rightarrow> map_of df (c, r))"
    using combined_rows [OF assms(2,3)] by blast+
  have d2: "distinct (map fst ?R2)"
    using dR by (simp add: distinct_set_row)
  have "map_of t (c, n, r) = map_of ?R2 (c, n, r)"
    unfolding t using d2 by (simp only: map_of_sort_key)
  also have "\<dots> = map_of ?R (c, n, r)"
    using assms(4) by (simp add: map_of_set_row)
  finally show ?thesis
    using mR by simp
qed

lemma summary_df_from_list_Inr:
  assumes "summary_df_from_list l es kw = Inr s"
  shows "l \<noteq> [] \<and> (\<forall>arr \<in> set l. length arr = length es)
       \<and> summary_df \<lparr>columns = es, rows = l\<rparr> kw = Inr s"
  using assms by (auto simp add: summary_df_from_list_def split: if_splits)

lemma summary_df_distinct:
  assumes "summary_df df kw = Inr t"
  shows "distinct (map fst t)"
proof -
  from assms have "summary_body df (kwarg kw ''true_values'' PNone)
                  (kwarg kw ''include_true_values'' (PBool False))
                  (kwarg kw ''include_rmse'' (PBool False)) = Inr t"
    by (simp add: summary_df_eq split: if_splits)
  then show ?thesis
    by (rule summary_body_rows(1))
qed

lemma method_tables:
  assumes loop: "\<forall>k < length ms.
             method_df ms vs es tvp irp adj (zip (take k ms) (take k dfs)) k = Inr (dfs ! k)"
    and len: "length dfs = length ms"
    and dis: "distinct ms"
    and k: "k < length ms"
  shows "\<exists>s. summary_df \<lparr>columns = es, rows = vs ! k\<rparr> (method_kwargs tvp irp) = Inr s
        \<and> vs ! k \<noteq> [] \<and> (\<forall>arr \<in> set (vs ! k). length arr = length es)
        \<and> distinct (map fst (dfs ! k))
        \<and> (\<forall>key. fst key \<noteq> ''std efficiency gain'' \<and> fst key \<noteq> ''rmse efficiency gain''
               \<longrightarrow> map_of (dfs ! k) key = map_of s key)
        \<and> (k = 0 \<longrightarrow> dfs ! k = s)
        \<and> (0 < k \<longrightarrow> (\<exists>ir bv dv v. truthy irp = Inr ir
               \<and> loc (dfs ! 0) (''std'', ''value'') = Inr bv
               \<and> loc s (''std'', ''value'') = Inr dv
               \<and> gain_value_row adj bv dv = Inr v
               \<and> map_of (dfs ! k) (''std efficiency gain'', ''value'') = Some v
               \<and> (ir \<longrightarrow> (\<exists>bv' dv' v'. loc (dfs ! 0) (''rmse'', ''value'') = Inr bv'
                      \<and> loc s (''rmse'', ''value'') = Inr dv'
                      \<and> gain_value_row adj bv' dv' = Inr v'
                      \<and> map_of (dfs ! k) (''rmse efficiency gain'', ''value'') = Some v'))))"
proof (cases "k = 0")
  case True
  from loop k have "method_df ms vs es tvp irp adj (zip (take k ms) (take k dfs)) k = Inr (dfs ! k)"
    by blast
  then have "method_df ms vs es tvp irp adj [] 0 = Inr (dfs ! 0)"
    using True by simp
  from method_df_first [OF this]
  have s: "summary_df_from_list (vs ! 0) es (method_kwargs tvp irp) = Inr (dfs ! 0)"
    by (simp add: method_kwargs_def)
  from summary_df_from_list_Inr [OF s]
  have "vs ! 0 \<noteq> []"
    and "\<forall>arr \<in> set (vs ! 0). length arr = length es"
    and "summary_df \<lparr>columns = es, rows = vs ! 0\<rparr> (method_kwargs tvp irp) = Inr (dfs ! 0)"
    by simp_all
  then show ?thesis
    using True summary_df_distinct by auto
next
  case False
  let ?d = "zip (take k ms) (take k dfs)"
  from loop k have "method_df ms vs es tvp irp adj ?d k = Inr (dfs ! k)"
    by blast
  from method_df_later [OF this False] obtain s ir where
    s: "summary_df_from_list (vs ! k) es (method_kwargs tvp irp) = Inr s"
    and ir: "truthy irp = Inr ir"
    and g: "add_gains ?d (ms ! 0) adj (''std'' # (if ir then [''rmse''] else [])) s = Inr (dfs ! k)"
    by (auto simp add: method_kwargs_def)
  from summary_df_from_list_Inr [OF s]
  have ne: "vs ! k \<noteq> []" "\<forall>arr \<in> set (vs ! k). length arr = length es"
    and sd: "summary_df \<lparr>columns = es, rows = vs ! k\<rparr> (method_kwargs tvp irp) = Inr s"
    by simp_all
  have ds: "distinct (map fst s)"
    using sd by (rule summary_df_distinct)
  have "map_of ?d (take k ms ! 0) = Some (take k dfs ! 0)"
    using False k len dis by (intro map_of_zip_nth) simp_all
  then have base: "dict_get ?d (ms ! 0) = Inr (dfs ! 0)"
    using False by (simp add: dict_get_def)
  from add_gains_Inr [OF g] obtain base bv dv v where
    b: "dict_get ?d (ms ! 0) = Inr base"
    and 1: "loc base (''std'', ''value'') = Inr bv" "loc s (''std'', ''value'') = Inr dv"
       "gain_value_row adj bv dv = Inr v"
       "map_of (dfs ! k) (''std efficiency gain'', ''value'') = Some v"
    and 2: "ir \<longrightarrow> (\<exists>bv' dv' v'. loc base (''rmse'', ''value'') = Inr bv'
              \<and> loc s (''rmse'', ''value'') = Inr dv'
              \<and> gain_value_row adj bv' dv' = Inr v'
              \<and> map_of (dfs ! k) (''rmse efficiency gain'', ''value'') = Some v')"
    and 3: "\<forall>key. fst key \<noteq> ''std efficiency gain'' \<and> fst key \<noteq> ''rmse efficiency gain''
              \<longrightarrow> map_of (dfs ! k) key = map_of s key"
    and 4: "distinct (map fst s) \<longrightarrow> distinct (map fst (dfs ! k))"
    by blast
  have be: "base = dfs ! 0"
    using b base by simp
  show ?thesis
    using False sd ne ds ir 1 2 3 4 unfolding be by blast
qed

lemma efficiency_gain_body_rows:
  assumes "efficiency_gain_body ms vs es tvp itvp irp adjp = Inr t"
    and "k < length ms"
  shows "\<exists>adj s s0. as_array adjp = Inr adj \<and> length vs = length ms
        \<and> summary_df \<lparr>columns = es, rows = vs ! k\<rparr> (method_kwargs tvp irp) = Inr s
        \<and> summary_df \<lparr>columns = es, rows = vs ! 0\<rparr> (method_kwargs tvp irp) = Inr s0
        \<and> vs ! k \<noteq> [] \<and> (\<forall>arr \<in> set (vs ! k). length arr = length es)
        \<and> (\<forall>c r. c \<noteq> ''std efficiency gain'' \<and> c \<noteq> ''rmse efficiency gain''
               \<longrightarrow> map_of t (c, ms ! k, r) = map_of s (c, r))
        \<and> (0 < k \<longrightarrow> (\<exists>ir bv dv v. truthy irp = Inr ir
               \<and> loc s0 (''std'', ''value'') = Inr bv
               \<and> loc s (''std'', ''value'') = Inr dv
               \<and> gain_value_row adj bv dv = Inr v
               \<and> map_of t (''std efficiency gain'', ms ! k, ''value'') = Some v
               \<and> (ir \<longrightarrow> (\<exists>bv' dv' v'. loc s0 (''rmse'', ''value'') = Inr bv'
                      \<and> loc s (''rmse'', ''value'') = Inr dv'
                      \<and> gain_value_row adj bv' dv' = Inr v'
                      \<and> map_of t (''rmse efficiency gain'', ms ! k, ''value'') = Some v'))))"
proof -
  from assms(1) obtain adj df_dict itv where
    a: "as_array adjp = Inr adj"
    and l: "length ms = length vs"
    and m: "methods_loop (method_df ms vs es tvp irp adj) (enumerate 0 ms) [] = Inr df_dict"
    and dis: "distinct ([] # ms)"
    and t: "t = sort_key (\<lambda>p. gain_rank ms (fst p))
           (if itv
            then set_row (''true values'', [], ''value'')
                   (case tvp of PVec v \<Rightarrow> map Fin v | _ \<Rightarrow> replicate (length es) NaN)
                   (map (\<lambda>p. ((fst (snd (fst p)), fst (fst p), snd (snd (fst p))), snd p))
                      (concat (map (\<lambda>d. map (\<lambda>p. ((fst d, fst (fst p), snd (fst p)), snd p)) (snd d))
                                 df_dict)))
            else map (\<lambda>p. ((fst (snd (fst p)), fst (fst p), snd (snd (fst p))), snd p))
                   (concat (map (\<lambda>d. map (\<lambda>p. ((fst d, fst (fst p), snd (fst p)), snd p)) (snd d))
                              df_dict)))"
    by (rule efficiency_gain_body_stages)
  have dm: "distinct ms" and ne: "\<forall>n \<in> set ms. n \<noteq> []"
    using dis by auto
  from methods_loop_enumerate [OF m dm] obtain dfs where
    len: "length dfs = length ms"
    and dd: "df_dict = zip ms dfs"
    and loop: "\<forall>k < length ms.
             method_df ms vs es tvp irp adj (zip (take k ms) (take k dfs)) k = Inr (dfs ! k)"
    by blast
  note mt = method_tables [OF loop len dm]
  have keys: "map fst df_dict = ms"
    using len by (simp add: dd)
  have d1: "distinct (map fst df_dict)"
    using dm by (simp only: keys)
  have d2: "\<forall>e \<in> set df_dict. distinct (map fst (snd e))"
  proof
    fix e
    assume "e \<in> set df_dict"
    then obtain j where "j < length ms" "e = (ms ! j, dfs ! j)"
      using len by (auto simp add: dd set_zip)
    then show "distinct (map fst (snd e))"
      using mt [of j] by auto
  qed
  have look: "map_of t (c, ms ! j, r) = map_of (dfs ! j) (c, r)" if "j < length ms" for j c r
  proof -
    have "ms ! j \<noteq> []"
      using ne that by simp
    from gain_table_lookup [OF t d1 d2 this]
    have "map_of t (c, ms ! j, r)
            = (case map_of df_dict (ms ! j) of None \<Rightarrow> None | Some df \<Rightarrow> map_of df (c, r))" .
    moreover have "map_of df_dict (ms ! j) = Some (dfs ! j)"
      unfolding dd using len dm that by (intro map_of_zip_nth) simp_all
    ultimately show ?thesis by simp
  qed
  have pos: "0 < length ms"
    using assms(2) by (cases ms) simp_all
  from mt [OF pos] obtain s0 where
    s0: "summary_df \<lparr>columns = es, rows = vs ! 0\<rparr> (method_kwargs tvp irp) = Inr s0"
    and e0: "dfs ! 0 = s0"
    by auto
  from mt [OF assms(2)] obtain s where
    s: "summary_df \<lparr>columns = es, rows = vs ! k\<rparr> (method_kwargs tvp irp) = Inr s"
    and nek: "vs ! k \<noteq> []" "\<forall>arr \<in> set (vs ! k). length arr = length es"
    and o: "\<forall>key. fst key \<noteq> ''std efficiency gain'' \<and> fst key \<noteq> ''rmse efficiency gain''
               \<longrightarrow> map_of (dfs ! k) key = map_of s key"
    and g: "0 < k \<longrightarrow> (\<exists>ir bv dv v. truthy irp = Inr ir
               \<and> loc (dfs ! 0) (''std'', ''value'') = Inr bv
               \<and> loc s (''std'', ''value'') = Inr dv
               \<and> gain_value_row adj bv dv = Inr v
               \<and> map_of (dfs ! k) (''std efficiency gain'', ''value'') = Some v
               \<and> (ir \<longrightarrow> (\<exists>bv' dv' v'. loc (dfs ! 0) (''rmse'', ''value'') = Inr bv'
                      \<and> loc s (''rmse'', ''value'') = Inr dv'
                      \<and> gain_value_row adj bv' dv' = Inr v'
                      \<and> map_of (dfs ! k) (''rmse efficiency gain'', ''value'') = Some v')))"
    by blast
  have o': "\<forall>c r. c \<noteq> ''std efficiency gain'' \<and> c \<noteq> ''rmse efficiency gain''
               \<longrightarrow> map_of t (c, ms ! k, r) = map_of s (c, r)"
    using o look [OF assms(2)] by simp
  have g': "0 < k \<longrightarrow> (\<exists>ir bv dv v. truthy irp = Inr ir
               \<and> loc s0 (''std'', ''value'') = Inr bv
               \<and> loc s (''std'', ''value'') = Inr dv
               \<and> gain_value_row adj bv dv = Inr v
               \<and> map_of t (''std efficiency gain'', ms ! k, ''value'') = Some v
               \<and> (ir \<longrightarrow> (\<exists>bv' dv' v'. loc s0 (''rmse'', ''value'') = Inr bv'
                      \<and> loc s (''rmse'', ''value'') = Inr dv'
                      \<and> gain_value_row adj bv' dv' = Inr v'
                      \<and> map_of t (''rmse efficiency gain'', ms ! k, ''value'') = Some v')))"
    using g unfolding e0 look [OF assms(2)] by blast
  show ?thesis
    using a l s s0 nek o' g' by auto
qed

section \<open>Sample counts\<close>

lemmas gain_defs = efficiency_gain_df_eq gain_options_def efficiency_gain_body_def
  method_df_def summary_df_from_list_def nth_e_def scale_row_def dict_get_def dict_set_def
  add_gain_def array_ratio_std_def gain_rank_def gain_categories_def enumerate_eq_zip

text \<open>
  Claim C1 at three methods with identical values, two estimators and the sample counts
  \<open>[1, 2, 4]\<close>. Without sample counts every gain value is 1, so the claim gives the
  second method the gain values \<open>[1/2, 1/2]\<close> and the third \<open>[1/4, 1/4]\<close>. The program
  multiplies the row of each of them by the array \<open>adjust_nsamp[0] / adjust_nsamp[1:]\<close>,
  one entry per estimator column, and both get \<open>[1/2, 1/4]\<close>.
\<close>

theorem adjust_nsamp_scales_columns:
  "\<exists>t0 t.
     efficiency_gain_df [''a'', ''b'', ''c'']
       [[[0, 0], [1, 1], [2, 2]], [[0, 0], [1, 1], [2, 2]], [[0, 0], [1, 1], [2, 2]]]
       [''x'', ''y''] [] = Inr t0
     \<and> loc t0 (''std efficiency gain'', ''b'', ''value'') = Inr [Fin 1, Fin 1]
     \<and> loc t0 (''std efficiency gain'', ''c'', ''value'') = Inr [Fin 1, Fin 1]
     \<and> efficiency_gain_df [''a'', ''b'', ''c'']
         [[[0, 0], [1, 1], [2, 2]], [[0, 0], [1, 1], [2, 2]], [[0, 0], [1, 1], [2, 2]]]
         [''x'', ''y''] [(''adjust_nsamp'', PVec [1, 2, 4])] = Inr t
     \<and> loc t (''std efficiency gain'', ''b'', ''value'') = Inr [Fin (1 / 2), Fin (1 / 4)]
     \<and> loc t (''std efficiency gain'', ''c'', ''value'') = Inr [Fin (1 / 2), Fin (1 / 4)]"
  by (simp add: gain_defs eval_defs real_sqrt_divide)

section \<open>Efficiency gains of identical methods\<close>

lemma fsquare_ratio_self: "fsquare (fdiv (Fin a) (Fin a)) = (if a = 0 then NaN else Fin 1)"
  by simp





section \<open>Names and value lists\<close>

lemma ebind_neq: "m \<noteq> Inl x \<Longrightarrow> (\<And>a. f a \<noteq> Inl x) \<Longrightarrow> ebind m f \<noteq> Inl x"
  by (cases m) auto

lemma ebind_Inl: "(ebind m f = Inl x) = (m = Inl x \<or> (\<exists>a. m = Inr a \<and> f a = Inl x))"
  by (cases m) auto

lemma as_array_neq [simp]: "as_array x \<noteq> Inl (AssertionError s)"
  by (simp add: as_array_def split: pyval.splits)

lemma truthy_neq [simp]: "truthy x \<noteq> Inl (AssertionError s)"
  using truthy_error [of x "AssertionError s"] by auto

lemma loc_neq [simp]: "loc t k \<noteq> Inl (AssertionError s)"
  by (simp add: loc_def split: option.splits)

lemma py_truediv_neq [simp]: "py_truediv a b \<noteq> Inl (AssertionError s)"
  by (simp add: py_truediv_def)

lemma nth_e_neq [simp]: "nth_e xs i \<noteq> Inl (AssertionError s)"
  by (simp add: nth_e_def)

lemma dict_get_neq [simp]: "dict_get d k \<noteq> Inl (AssertionError s)"
  by (simp add: dict_get_def split: option.splits)

lemma scale_row_neq [simp]: "scale_row r a \<noteq> Inl (AssertionError s)"
  by (simp add: scale_row_def)

lemma rmse_and_unc_neq [simp]: "rmse_and_unc a t \<noteq> Inl (AssertionError NamesValuesLength)"
  by (simp add: rmse_and_unc_def Let_def)

lemma summary_body_neq: "summary_body df tvp itvp irp \<noteq> Inl (AssertionError NamesValuesLength)"
  unfolding summary_body_def Let_def
  by (intro ebind_neq) (auto simp add: ebind_Inl split: option.splits)

lemma summary_df_neq: "summary_df df kw \<noteq> Inl (AssertionError NamesValuesLength)"
  by (simp add: summary_df_eq summary_body_neq)

lemma summary_df_from_list_neq:
  "summary_df_from_list l es kw \<noteq> Inl (AssertionError NamesValuesLength)"
  by (simp add: summary_df_from_list_def summary_df_neq)

lemma add_gain_neq: "add_gain d b adj df stat \<noteq> Inl (AssertionError NamesValuesLength)"
  unfolding add_gain_def Let_def
  by (intro ebind_neq) (auto simp add: ebind_Inl split: option.splits)

lemma add_gains_neq: "add_gains d b adj stats df \<noteq> Inl (AssertionError NamesValuesLength)"
  by (induction stats arbitrary: df) (auto simp add: ebind_Inl add_gain_neq)

lemma method_df_neq:
  "method_df ms vs es tvp irp adj d i \<noteq> Inl (AssertionError NamesValuesLength)"
  unfolding method_df_def
  by (intro ebind_neq)
     (auto simp add: ebind_Inl summary_df_from_list_neq add_gains_neq add_gain_neq)

lemma methods_loop_neq:
  assumes "\<And>d i. body d i \<noteq> Inl x"
  shows "methods_loop body xs d \<noteq> Inl x"
  using assms by (induction xs arbitrary: d) (auto simp add: ebind_Inl)

lemma efficiency_gain_body_neq:
  assumes "length ms = length vs"
  shows "efficiency_gain_body ms vs es tvp itvp irp adjp \<noteq> Inl (AssertionError NamesValuesLength)"
  unfolding efficiency_gain_body_def Let_def
  using assms
  by (intro ebind_neq) (auto simp add: ebind_Inl methods_loop_neq method_df_neq split: option.splits)

lemma efficiency_gain_body_mismatch:
  assumes "length ms \<noteq> length vs"
  shows "efficiency_gain_body ms vs es tvp itvp irp adjp =
     (case adjp of
        PNone \<Rightarrow> Inl (AssertionError NamesValuesLength)
      | PBool b \<Rightarrow> Inl AttributeError
      | PVec a \<Rightarrow>
          if length a = length ms then Inl (AssertionError NamesValuesLength)
          else Inl (AssertionError AdjustShape))"
  using assms by (simp add: efficiency_gain_body_def as_array_def split: pyval.splits)

lemma efficiency_gain_df_method_rows:
  assumes "efficiency_gain_df ms vs es kw = Inr t" and "k < length ms"
  shows "distinct ms
       \<and> loc t (''mean'', ms ! k, ''value'')
           = Inr (map (\<lambda>j. Fin (col_mean \<lparr>columns = es, rows = vs ! k\<rparr> j)) [0..<length es])
       \<and> loc t (''std'', ms ! k, ''value'')
           = Inr (map (\<lambda>j. Fin (col_std \<lparr>columns = es, rows = vs ! k\<rparr> j)) [0..<length es])"
proof -
  let ?tvp = "kwarg kw ''true_values'' PNone"
  let ?irp = "kwarg kw ''include_rmse'' (PBool False)"
  let ?df = "\<lparr>columns = es, rows = vs ! k\<rparr>"
  from assms(1) have b: "efficiency_gain_body ms vs es ?tvp
      (kwarg kw ''include_true_values'' (PBool False)) ?irp (kwarg kw ''adjust_nsamp'' PNone) = Inr t"
    by (simp add: efficiency_gain_df_eq split: if_splits)
  from b have dis: "distinct ([] # ms)"
    by (rule efficiency_gain_body_stages)
  from efficiency_gain_body_rows [OF b assms(2)] obtain s where
    s: "summary_df ?df (method_kwargs ?tvp ?irp) = Inr s"
    and ne: "vs ! k \<noteq> []"
    and o: "\<forall>c r. c \<noteq> ''std efficiency gain'' \<and> c \<noteq> ''rmse efficiency gain''
               \<longrightarrow> map_of t (c, ms ! k, r) = map_of s (c, r)"
    by blast
  have sb: "summary_body ?df ?tvp (PBool False) ?irp = Inr s"
    using s by (simp add: summary_df_eq method_kwargs_def summary_options_def kwarg_def)
  have n1: "length (rows ?df) \<noteq> 1"
    using summary_body_rows(4) [OF sb] .
  have two: "2 \<le> length (rows ?df)"
  proof -
    have "length (vs ! k) \<noteq> 0" "length (vs ! k) \<noteq> 1"
      using n1 ne by simp_all
    then have "2 \<le> length (vs ! k)" by arith
    then show ?thesis by simp
  qed
  have ne': "rows ?df \<noteq> []"
    using ne by simp
  have m: "map_of t (''mean'', ms ! k, ''value'') = map_of s (''mean'', ''value'')"
    and sd: "map_of t (''std'', ms ! k, ''value'') = map_of s (''std'', ''value'')"
    using o by simp_all
  have 1: "loc t (''mean'', ms ! k, ''value'')
           = Inr (map (\<lambda>j. Fin (col_mean ?df j)) [0..<length es])"
    using mean_axis0_real [OF ne']
    by (simp add: loc_def m summary_body_rows(5) [OF sb])
  have 2: "loc t (''std'', ms ! k, ''value'')
           = Inr (map (\<lambda>j. Fin (col_std ?df j)) [0..<length es])"
    using std_axis0_real [OF two]
    by (simp add: loc_def sd summary_body_rows(6) [OF sb])
  show ?thesis
    using dis 1 2 by simp
qed

text \<open>
  Claim C9: when the number of method names differs from the number of value lists the
  call fails before any summary is computed: with the assertion on the two lengths, unless
  one of the two checks in front of it (unrecognised options, shape of the sample counts)
  has already failed. When the two lengths are equal that assertion never fails, and in
  every table returned the names are distinct and the rows under the \<open>k\<close>-th name are the
  statistics of the \<open>k\<close>-th value list: its columnwise mean and standard deviation.
\<close>

theorem names_paired_with_values:
  "(length ms \<noteq> length vs \<longrightarrow>
      efficiency_gain_df ms vs es kw =
        (if \<not> fst ` set kw \<subseteq> set gain_options then Inl TypeError
         else case kwarg kw ''adjust_nsamp'' PNone of
                PNone \<Rightarrow> Inl (AssertionError NamesValuesLength)
              | PBool b \<Rightarrow> Inl AttributeError
              | PVec a \<Rightarrow>
                  if length a = length ms then Inl (AssertionError NamesValuesLength)
                  else Inl (AssertionError AdjustShape)))
   \<and> (length ms = length vs \<longrightarrow>
        efficiency_gain_df ms vs es kw \<noteq> Inl (AssertionError NamesValuesLength)
        \<and> (\<forall>t k. efficiency_gain_df ms vs es kw = Inr t \<and> k < length ms \<longrightarrow>
              distinct ms
              \<and> loc t (''mean'', ms ! k, ''value'')
                  = Inr (map (\<lambda>j. Fin (col_mean \<lparr>columns = es, rows = vs ! k\<rparr> j))
                           [0..<length es])
              \<and> loc t (''std'', ms ! k, ''value'')
                  = Inr (map (\<lambda>j. Fin (col_std \<lparr>columns = es, rows = vs ! k\<rparr> j))
                           [0..<length es])))"
proof (intro conjI impI allI)
  assume "length ms \<noteq> length vs"
  then show "efficiency_gain_df ms vs es kw =
        (if \<not> fst ` set kw \<subseteq> set gain_options then Inl TypeError
         else case kwarg kw ''adjust_nsamp'' PNone of
                PNone \<Rightarrow> Inl (AssertionError NamesValuesLength)
              | PBool b \<Rightarrow> Inl AttributeError
              | PVec a \<Rightarrow>
                  if length a = length ms then Inl (AssertionError NamesValuesLength)
                  else Inl (AssertionError AdjustShape))"
    by (simp add: efficiency_gain_df_eq efficiency_gain_body_mismatch)
next
  assume "length ms = length vs"
  then show "efficiency_gain_df ms vs es kw \<noteq> Inl (AssertionError NamesValuesLength)"
    by (simp add: efficiency_gain_df_eq efficiency_gain_body_neq)
next
  fix t k
  assume "efficiency_gain_df ms vs es kw = Inr t \<and> k < length ms"
  then have e: "efficiency_gain_df ms vs es kw = Inr t" and k: "k < length ms"
    by simp_all
  note r = efficiency_gain_df_method_rows [OF e k]
  show "distinct ms" using r by simp
  show "loc t (''mean'', ms ! k, ''value'')
          = Inr (map (\<lambda>j. Fin (col_mean \<lparr>columns = es, rows = vs ! k\<rparr> j)) [0..<length es])"
    using r by simp
  show "loc t (''std'', ms ! k, ''value'')
          = Inr (map (\<lambda>j. Fin (col_std \<lparr>columns = es, rows = vs ! k\<rparr> j)) [0..<length es])"
    using r by simp
qed

theorem names_paired_with_values_witness:
  "length [''old'', ''new''] \<noteq> length [[[0], [1], [2 :: real]]]
   \<and> efficiency_gain_df [''old'', ''new''] [[[0], [1], [2]]] [''a''] []
       = Inl (AssertionError NamesValuesLength)
   \<and> length [''old'', ''new''] = length [[[0], [1], [2 :: real]], [[0], [2], [4]]]
   \<and> ebind (efficiency_gain_df [''old'', ''new''] [[[0], [1], [2]], [[0], [2], [4]]] [''a''] [])
         (\<lambda>t. loc t (''mean'', ''old'', ''value'')) = Inr [Fin 1]
   \<and> ebind (efficiency_gain_df [''old'', ''new''] [[[0], [1], [2]], [[0], [2], [4]]] [''a''] [])
         (\<lambda>t. loc t (''mean'', ''new'', ''value'')) = Inr [Fin 2]
   \<and> ebind (efficiency_gain_df [''old'', ''new''] [[[0], [1], [2]], [[0], [2], [4]]] [''a''] [])
         (\<lambda>t. loc t (''std'', ''new'', ''value'')) = Inr [Fin 2]"
proof -
  let ?ms = "[''old'', ''new'']"
  let ?v = "[[0], [1], [2 :: real]]"
  let ?w = "[[0], [2], [4 :: real]]"
  have m: "efficiency_gain_df ?ms [?v] [''a''] [] = Inl (AssertionError NamesValuesLength)"
    using names_paired_with_values [of ?ms "[?v]" "[''a'']" "[]"]
    by (simp add: kwarg_def)
  have "\<exists>t. efficiency_gain_df ?ms [?v, ?w] [''a''] [] = Inr t"
    by (simp add: gain_defs eval_defs real_sqrt_divide)
  then obtain t where e: "efficiency_gain_df ?ms [?v, ?w] [''a''] [] = Inr t"
    by blast
  have c0: "col_mean \<lparr>columns = [''a''], rows = ?v\<rparr> 0 = 1"
    by (simp add: col_mean_def column_def)
  have c1: "col_mean \<lparr>columns = [''a''], rows = ?w\<rparr> 0 = 2"
    by (simp add: col_mean_def column_def)
  have "col_std \<lparr>columns = [''a''], rows = ?w\<rparr> 0 = sqrt 4"
    by (simp add: col_std_def col_mean_def column_def)
  also have "sqrt 4 = sqrt (2\<^sup>2)"
    by simp
  also have "\<dots> = 2"
    by (simp only: real_sqrt_abs abs_numeral)
  finally have c2: "col_std \<lparr>columns = [''a''], rows = ?w\<rparr> 0 = 2" .
  from names_paired_with_values [of ?ms "[?v, ?w]" "[''a'']" "[]"] e
  have r: "\<forall>k. k < length ?ms \<longrightarrow>
      loc t (''mean'', ?ms ! k, ''value'')
        = Inr (map (\<lambda>j. Fin (col_mean \<lparr>columns = [''a''], rows = [?v, ?w] ! k\<rparr> j))
                 [0..<length [''a'']])
    \<and> loc t (''std'', ?ms ! k, ''value'')
        = Inr (map (\<lambda>j. Fin (col_std \<lparr>columns = [''a''], rows = [?v, ?w] ! k\<rparr> j))
                 [0..<length [''a'']])"
    by simp
  have r0: "loc t (''mean'', ''old'', ''value'') = Inr [Fin 1]"
    using r [rule_format, of 0] c0 by simp
  have r1: "loc t (''mean'', ''new'', ''value'') = Inr [Fin 2]"
    and r2: "loc t (''std'', ''new'', ''value'') = Inr [Fin 2]"
    using r [rule_format, of 1] c1 c2 by simp_all
  show ?thesis
    using m r0 r1 r2 by (simp add: e)
qed

end
